theory Spec2Isabelle
  imports Complex_Main
begin

section \<open>Data model\<close>

text \<open>
  The adapter of \<^verbatim>\<open>src/src/OsqpEigenOptimization.cpp\<close> works on Eigen vectors and sparse
  matrices of \<^verbatim>\<open>double\<close>. The only arithmetic it performs on their coefficients is unary
  minus and one multiplication by a vector of ones; both are exact, so a coefficient is
  modelled as a \<^typ>\<open>real\<close>. The rollout of the controller multiplies and adds matrices; it
  is stated in the same exact arithmetic, without the rounding of \<^verbatim>\<open>double\<close>. A dense vector
  \<^verbatim>\<open>VecNd\<close> is the list of its coefficients.
\<close>

type_synonym VecNd = "real list"

text \<open>
  \<^verbatim>\<open>SparseMat\<close>: the shape and the stored coefficients, each a position (row, column) with
  its value, in the order in which an \<^verbatim>\<open>InnerIterator\<close> sweep visits them.
\<close>

record SparseMat =
  rows :: nat
  cols :: nat
  nonzeros :: "((nat \<times> nat) \<times> real) list"

text \<open>
  What can go wrong in the adapter. \<^verbatim>\<open>setSparseBlock\<close> prints four labelled numbers to the
  standard output and then throws \<^verbatim>\<open>std::runtime_error("setSparseBlock: Can't fit block")\<close>;
  the error value keeps the message and the printed lines. The other three are the
  assertions of Eigen that the adapter can trip: \<^verbatim>\<open>insert\<close> on a position outside the matrix,
  \<^verbatim>\<open>insert\<close> on a position that already holds a coefficient, and \<^verbatim>\<open>segment\<close> outside
  the vector.
\<close>

datatype error =
    runtime_error string "(string \<times> int) list"
  | IndexOutOfRange
  | InsertExisting
  | SegmentOutOfRange

definition coeff :: "SparseMat \<Rightarrow> nat \<Rightarrow> nat \<Rightarrow> real" where
  "coeff M r c = (case map_of (nonzeros M) (r, c) of None \<Rightarrow> 0 | Some v \<Rightarrow> v)"

text \<open>The invariant of a sparse matrix: every stored position lies inside the shape and is
  stored once.\<close>

definition wellformed :: "SparseMat \<Rightarrow> bool" where
  "wellformed M \<longleftrightarrow>
     distinct (map fst (nonzeros M)) \<and>
     list_all (\<lambda>e. fst (fst e) < rows M \<and> snd (fst e) < cols M) (nonzeros M)"

text \<open>\<^verbatim>\<open>SparseMat M(r, c)\<close>: an empty matrix of the given shape.\<close>

definition SparseMat_new :: "nat \<Rightarrow> nat \<Rightarrow> SparseMat" where
  "SparseMat_new r c = \<lparr>rows = r, cols = c, nonzeros = []\<rparr>"

text \<open>\<^verbatim>\<open>M.setIdentity()\<close>: the stored coefficients become the ones of the diagonal.\<close>

definition setIdentity :: "SparseMat \<Rightarrow> SparseMat" where
  "setIdentity M = M\<lparr>nonzeros := map (\<lambda>k. ((k, k), 1)) [0..<min (rows M) (cols M)]\<rparr>"

text \<open>
  \<^verbatim>\<open>M.insert(r, c) = v\<close>. Eigen requires the position to be inside the matrix and not to be
  stored yet; it asserts both.
\<close>

definition insert_coeff :: "SparseMat \<Rightarrow> nat \<Rightarrow> nat \<Rightarrow> real \<Rightarrow> error + SparseMat" where
  "insert_coeff M r c v =
     (if \<not> (r < rows M \<and> c < cols M) then Inl IndexOutOfRange
      else if map_of (nonzeros M) (r, c) \<noteq> None then Inl InsertExisting
      else Inr (M\<lparr>nonzeros := nonzeros M @ [((r, c), v)]\<rparr>))"

section \<open>The sparse block inserter\<close>

text \<open>
  \<^verbatim>\<open>OsqpEigenOpt::setSparseBlock(output_matrix, input_block, i, j)\<close>. The two offsets are
  \<^verbatim>\<open>uint32_t\<close>, the shapes are \<^verbatim>\<open>Eigen::Index\<close> (a signed 64-bit integer), so the
  differences of the guard and of the printed lines are taken in the signed integers and can
  be negative. The loop visits every stored coefficient of the block.
\<close>

definition shift_entry :: "nat \<Rightarrow> nat \<Rightarrow> (nat \<times> nat) \<times> real \<Rightarrow> (nat \<times> nat) \<times> real" where
  "shift_entry i j e = ((fst (fst e) + i, snd (fst e) + j), snd e)"

fun insert_all :: "SparseMat \<Rightarrow> ((nat \<times> nat) \<times> real) list \<Rightarrow> nat \<Rightarrow> nat \<Rightarrow> error + SparseMat" where
  "insert_all M [] i j = Inr M"
| "insert_all M (e # es) i j =
     (case insert_coeff M (fst (fst e) + i) (snd (fst e) + j) (snd e) of
        Inl err \<Rightarrow> Inl err
      | Inr M' \<Rightarrow> insert_all M' es i j)"

definition cant_fit :: "SparseMat \<Rightarrow> SparseMat \<Rightarrow> nat \<Rightarrow> nat \<Rightarrow> bool" where
  "cant_fit output_matrix input_block i j \<longleftrightarrow>
     int (rows input_block) > int (rows output_matrix) - int i \<or>
     int (cols input_block) > int (cols output_matrix) - int j"

definition setSparseBlock :: "SparseMat \<Rightarrow> SparseMat \<Rightarrow> nat \<Rightarrow> nat \<Rightarrow> error + SparseMat" where
  "setSparseBlock output_matrix input_block i j =
     (if cant_fit output_matrix input_block i j
      then Inl (runtime_error ''setSparseBlock: Can't fit block''
             [(''input_block.cols() = '', int (cols input_block)),
              (''input_block.rows() = '', int (rows input_block)),
              (''output_matrix.cols() - i = '', int (cols output_matrix) - int i),
              (''output_matrix.rows() - j = '', int (rows output_matrix) - int j)])
      else insert_all output_matrix (nonzeros input_block) i j)"

text \<open>The rows and the columns that the target has left from the offset on: the two
  quantities that the guard of \<^verbatim>\<open>setSparseBlock\<close> compares the block with.\<close>

definition remaining_rows :: "SparseMat \<Rightarrow> nat \<Rightarrow> int" where
  "remaining_rows output_matrix i = int (rows output_matrix) - int i"

definition remaining_cols :: "SparseMat \<Rightarrow> nat \<Rightarrow> int" where
  "remaining_cols output_matrix j = int (cols output_matrix) - int j"

text \<open>No stored coefficient of the target sits where a coefficient of the block goes.\<close>

definition no_overlap :: "SparseMat \<Rightarrow> SparseMat \<Rightarrow> nat \<Rightarrow> nat \<Rightarrow> bool" where
  "no_overlap output_matrix input_block i j \<longleftrightarrow>
     list_all (\<lambda>e. map_of (nonzeros output_matrix) (fst (fst e) + i, snd (fst e) + j) = None)
       (nonzeros input_block)"

section \<open>The solver session\<close>

text \<open>
  The QP solver is an external library; the adapter talks to it through the setters of its
  settings and of its data, and through \<^verbatim>\<open>clearSolver\<close>, \<^verbatim>\<open>initSolver\<close>,
  \<^verbatim>\<open>solveProblem\<close>, \<^verbatim>\<open>getSolution\<close> and \<^verbatim>\<open>getStatus\<close>. The session is modelled by what the
  adapter hands to it: a setting or a datum is \<open>None\<close> until the adapter sets it, and the
  calls that clear and set up the solver are logged in order, each set-up with the data it
  was given. What the library does with them is not part of this repository.
\<close>

record Settings =
  verbosity :: "bool option"
  alpha :: "real option"
  absoluteTolerance :: "real option"
  relativeTolerance :: "real option"
  warmStart :: "bool option"
  maxIteration :: "nat option"
  timeLimit :: "real option"
  adaptiveRho :: "bool option"
  adaptiveRhoInterval :: "nat option"

record Data =
  numberOfVariables :: "nat option"
  numberOfConstraints :: "nat option"
  hessianMatrix :: "SparseMat option"
  gradient :: "VecNd option"
  linearConstraintsMatrix :: "SparseMat option"
  lowerBound :: "VecNd option"
  upperBound :: "VecNd option"

datatype SolverCall = ClearSolver | InitSolver Data

record Solver =
  settings :: Settings
  data :: Data
  calls :: "SolverCall list"
  solution :: VecNd
  status :: int

definition Solver_new :: Solver where
  "Solver_new =
     \<lparr>settings = \<lparr>verbosity = None, alpha = None, absoluteTolerance = None,
         relativeTolerance = None, warmStart = None, maxIteration = None, timeLimit = None,
         adaptiveRho = None, adaptiveRhoInterval = None\<rparr>,
      data = \<lparr>numberOfVariables = None, numberOfConstraints = None, hessianMatrix = None,
         gradient = None, linearConstraintsMatrix = None, lowerBound = None,
         upperBound = None\<rparr>,
      calls = [], solution = [], status = 0\<rparr>"

definition clearSolver :: "Solver \<Rightarrow> Solver" where
  "clearSolver sv = sv\<lparr>calls := calls sv @ [ClearSolver]\<rparr>"

definition initSolver :: "Solver \<Rightarrow> Solver" where
  "initSolver sv = sv\<lparr>calls := calls sv @ [InitSolver (data sv)]\<rparr>"

text \<open>The status code of the solver library for a primal infeasible problem.\<close>

definition OSQP_PRIMAL_INFEASIBLE :: int where
  "OSQP_PRIMAL_INFEASIBLE = - 3"

section \<open>The QP problem\<close>

text \<open>\<^verbatim>\<open>SparseQpProblem\<close>, with the fields that the adapter reads.\<close>

record SparseQpProblem =
  A_qp :: SparseMat
  b_qp :: VecNd
  A_eq :: SparseMat
  b_eq :: VecNd
  A_ieq :: SparseMat
  b_ieq :: VecNd
  lower_bound :: VecNd
  upper_bound :: VecNd

section \<open>The adapter, box and affine layout\<close>

text \<open>
  The first \<^verbatim>\<open>OsqpEigenOpt\<close> of \<^verbatim>\<open>src/src/OsqpEigenOptimization.cpp\<close>. A member \<^verbatim>\<open>x_\<close> of
  the class is the field \<open>x_m\<close> of the record. The header that declares the class is not
  among the sources: the members are the ones that the functions use, the counts \<^verbatim>\<open>n_\<close> and
  \<^verbatim>\<open>m_\<close> are natural numbers, and the constant \<^verbatim>\<open>inf\<close> is the first argument \<open>infty\<close> of
  the functions that use it.
\<close>

record OsqpEigenOpt =
  alpha_m :: real
  n_m :: nat
  m_m :: nat
  linearConstraintsMatrix_m :: SparseMat
  b_qp_m :: VecNd
  lower_bound_m :: VecNd
  upper_bound_m :: VecNd
  solver_m :: Solver

text \<open>The conversion of an \<^verbatim>\<open>Eigen::Index\<close> to \<^verbatim>\<open>uint32_t\<close>, where the adapter passes a
  row count as an offset or keeps it in a \<^verbatim>\<open>uint32_t\<close> local.\<close>

definition to_uint32 :: "nat \<Rightarrow> nat" where
  "to_uint32 n = n mod 2 ^ 32"

text \<open>
  \<^verbatim>\<open>OsqpEigenOpt::initializeSolver(qp_problem, time_limit, verbosity)\<close>. The three blocks go
  into the member \<^verbatim>\<open>linearConstraintsMatrix_\<close> (the local matrix of the same shape is never
  used); a throw of \<^verbatim>\<open>setSparseBlock\<close> leaves the function.
\<close>

definition initializeSolver ::
  "real \<Rightarrow> OsqpEigenOpt \<Rightarrow> SparseQpProblem \<Rightarrow> real \<Rightarrow> bool \<Rightarrow> error + OsqpEigenOpt" where
  "initializeSolver infty s qp_problem time_limit verb =
     (let st = (settings (solver_m s))
            \<lparr>verbosity := Some verb, alpha := Some 1,
             absoluteTolerance := Some (1 / 10 ^ 6), relativeTolerance := Some (1 / 10 ^ 6),
             warmStart := Some True, maxIteration := Some 10000,
             timeLimit := Some time_limit,
             adaptiveRho := Some True, adaptiveRhoInterval := Some 5\<rparr>;
          d = (data (solver_m s))
            \<lparr>numberOfVariables := Some (n_m s), numberOfConstraints := Some (m_m s),
             hessianMatrix := Some (A_qp qp_problem),
             gradient := Some (b_qp qp_problem),
             linearConstraintsMatrix := None\<rparr>;
          identMatrix_n = setIdentity
            (SparseMat_new (length (upper_bound qp_problem)) (length (upper_bound qp_problem)))
      in case setSparseBlock (linearConstraintsMatrix_m s) identMatrix_n 0 0 of
           Inl err \<Rightarrow> Inl err
         | Inr M1 \<Rightarrow>
      (case setSparseBlock M1 (A_eq qp_problem) (to_uint32 (rows identMatrix_n)) 0 of
           Inl err \<Rightarrow> Inl err
         | Inr M2 \<Rightarrow>
      (case setSparseBlock M2 (A_ieq qp_problem)
              (to_uint32 (rows identMatrix_n + rows (A_eq qp_problem))) 0 of
           Inl err \<Rightarrow> Inl err
         | Inr M3 \<Rightarrow>
      (let lower_bound_x = lower_bound qp_problem;
           upper_bound_x = upper_bound qp_problem;
           lower_bound_eq = map uminus (b_eq qp_problem);
           upper_bound_eq = map uminus (b_eq qp_problem);
           lower_bound_ieq = map (\<lambda>one. - infty * one) (replicate (length (b_ieq qp_problem)) 1);
           upper_bound_ieq = map uminus (b_ieq qp_problem);
           lower_bound' = lower_bound_x @ lower_bound_eq @ lower_bound_ieq;
           upper_bound' = upper_bound_x @ upper_bound_eq @ upper_bound_ieq;
           d' = d\<lparr>linearConstraintsMatrix := Some M3,
                  lowerBound := Some lower_bound', upperBound := Some upper_bound'\<rparr>
       in Inr (s\<lparr>linearConstraintsMatrix_m := M3,
                 b_qp_m := b_qp qp_problem,
                 lower_bound_m := lower_bound',
                 upper_bound_m := upper_bound',
                 solver_m := initSolver (clearSolver
                   ((solver_m s)\<lparr>settings := st, data := d'\<rparr>))\<rparr>)))))"

text \<open>The constructor \<^verbatim>\<open>OsqpEigenOpt(qp_problem, time_limit, verbosity)\<close>: the member
  initialisers in the order in which they are written, then \<^verbatim>\<open>initializeSolver\<close>.\<close>

definition OsqpEigenOpt_new ::
  "real \<Rightarrow> SparseQpProblem \<Rightarrow> real \<Rightarrow> bool \<Rightarrow> error + OsqpEigenOpt" where
  "OsqpEigenOpt_new infty qp_problem time_limit verb =
     (let n = rows (A_qp qp_problem);
          m = length (upper_bound qp_problem) + rows (A_eq qp_problem) + rows (A_ieq qp_problem)
      in initializeSolver infty
           \<lparr>alpha_m = 1, n_m = n, m_m = m, linearConstraintsMatrix_m = SparseMat_new m n,
            b_qp_m = [], lower_bound_m = [], upper_bound_m = [], solver_m = Solver_new\<rparr>
           qp_problem time_limit verb)"

text \<open>\<^verbatim>\<open>OsqpEigenOpt::setGradientAndInit(b_qp)\<close>.\<close>

definition setGradientAndInit :: "OsqpEigenOpt \<Rightarrow> VecNd \<Rightarrow> OsqpEigenOpt" where
  "setGradientAndInit s b_qp' =
     (let sv = solver_m s;
          d = (data sv)\<lparr>gradient := Some b_qp',
                 linearConstraintsMatrix := Some (linearConstraintsMatrix_m s)\<rparr>
      in s\<lparr>b_qp_m := b_qp', solver_m := initSolver (clearSolver (sv\<lparr>data := d\<rparr>))\<rparr>)"

text \<open>
  \<^verbatim>\<open>v.segment(start, n) = w\<close> with \<open>n\<close> the size of \<open>w\<close>. Eigen asserts that the segment
  lies inside the vector; the start is a signed integer.
\<close>

definition segment_assign :: "VecNd \<Rightarrow> int \<Rightarrow> VecNd \<Rightarrow> error + VecNd" where
  "segment_assign v start w =
     (if start < 0 \<or> start + int (length w) > int (length v) then Inl SegmentOutOfRange
      else Inr (take (nat start) v @ w @ drop (nat start + length w) v))"

text \<open>
  \<^verbatim>\<open>OsqpEigenOpt::setGradientIeqConstraintAndInit(b_qp, b_ieq)\<close>. The local \<^verbatim>\<open>bound_dim\<close> is a
  \<^verbatim>\<open>uint32_t\<close> read from the lower bound; the start of the segment is its difference with
  the signed size of \<^verbatim>\<open>b_ieq\<close>.
\<close>

definition setGradientIeqConstraintAndInit ::
  "OsqpEigenOpt \<Rightarrow> VecNd \<Rightarrow> VecNd \<Rightarrow> error + OsqpEigenOpt" where
  "setGradientIeqConstraintAndInit s b_qp' b_ieq' =
     (let sv = solver_m s;
          bound_dim = to_uint32 (length (lower_bound_m s))
      in case segment_assign (upper_bound_m s) (int bound_dim - int (length b_ieq'))
                (map uminus b_ieq') of
           Inl err \<Rightarrow> Inl err
         | Inr upper_bound' \<Rightarrow>
             (let d = (data sv)\<lparr>gradient := Some b_qp',
                        lowerBound := Some (lower_bound_m s),
                        upperBound := Some upper_bound',
                        linearConstraintsMatrix := Some (linearConstraintsMatrix_m s)\<rparr>
              in Inr (s\<lparr>b_qp_m := b_qp', upper_bound_m := upper_bound',
                        solver_m := initSolver (clearSolver (sv\<lparr>data := d\<rparr>))\<rparr>)))"

text \<open>
  \<^verbatim>\<open>OsqpEigenOpt::solveProblem()\<close> runs the solver and returns its solution;
  \<^verbatim>\<open>OsqpEigenOpt::checkFeasibility()\<close> reads the status that the run left. The solver itself
  is the argument \<open>osqp\<close>: whatever it computes from the session, it leaves a solution
  vector and a status code.
\<close>

definition solveProblem :: "(Solver \<Rightarrow> VecNd \<times> int) \<Rightarrow> OsqpEigenOpt \<Rightarrow> VecNd \<times> OsqpEigenOpt" where
  "solveProblem osqp s =
     (let sv = (solver_m s)\<lparr>solution := fst (osqp (solver_m s)),
                  status := snd (osqp (solver_m s))\<rparr>
      in (solution sv, s\<lparr>solver_m := sv\<rparr>))"

definition checkFeasibility :: "OsqpEigenOpt \<Rightarrow> bool" where
  "checkFeasibility s = (\<not> (status (solver_m s) = OSQP_PRIMAL_INFEASIBLE))"

section \<open>The adapter, inequality-only layout\<close>

text \<open>
  The second \<^verbatim>\<open>OsqpEigenOpt\<close> of \<^verbatim>\<open>src/src/OsqpEigenOptimization.cpp\<close>, which keeps the QP
  problem as a member and has no block inserter. Its names carry the suffix \<open>2\<close>.
\<close>

record OsqpEigenOpt2 =
  alpha_m2 :: real
  qp_problem_m2 :: SparseQpProblem
  n_m2 :: nat
  m_m2 :: nat
  solver_m2 :: Solver

text \<open>\<^verbatim>\<open>OsqpEigenOpt::initializeSolver(verbosity)\<close> of the second adapter.\<close>

definition initializeSolver2 :: "real \<Rightarrow> OsqpEigenOpt2 \<Rightarrow> bool \<Rightarrow> OsqpEigenOpt2" where
  "initializeSolver2 infty s verb =
     (let st = (settings (solver_m2 s))
            \<lparr>verbosity := Some verb, alpha := Some (alpha_m2 s), adaptiveRho := Some False\<rparr>;
          lower_bound_eq = map uminus (b_eq (qp_problem_m2 s));
          upper_bound_eq = map uminus (b_eq (qp_problem_m2 s));
          lower_bound_ieq =
            map (\<lambda>one. - infty * one) (replicate (length (b_ieq (qp_problem_m2 s))) 1);
          upper_bound_ieq = map uminus (b_ieq (qp_problem_m2 s));
          lower_bound' = lower_bound_eq @ lower_bound_ieq;
          upper_bound' = upper_bound_eq @ upper_bound_ieq;
          d = (data (solver_m2 s))
            \<lparr>numberOfVariables := Some (n_m2 s), numberOfConstraints := Some (m_m2 s),
             hessianMatrix := Some (A_qp (qp_problem_m2 s)),
             gradient := Some (b_qp (qp_problem_m2 s)),
             linearConstraintsMatrix := Some (A_ieq (qp_problem_m2 s)),
             lowerBound := Some lower_bound', upperBound := Some upper_bound'\<rparr>
      in s\<lparr>solver_m2 := initSolver (clearSolver ((solver_m2 s)\<lparr>settings := st, data := d\<rparr>))\<rparr>)"

text \<open>The constructor \<^verbatim>\<open>OsqpEigenOpt(qp_problem, verbosity)\<close> of the second adapter.\<close>

definition OsqpEigenOpt2_new :: "real \<Rightarrow> SparseQpProblem \<Rightarrow> bool \<Rightarrow> OsqpEigenOpt2" where
  "OsqpEigenOpt2_new infty qp_problem verb =
     initializeSolver2 infty
       \<lparr>alpha_m2 = 1, qp_problem_m2 = qp_problem, n_m2 = rows (A_qp qp_problem),
        m_m2 = rows (A_eq qp_problem) + rows (A_ieq qp_problem), solver_m2 = Solver_new\<rparr>
       verb"

section \<open>The linear system and the rollout\<close>

text \<open>
  The header \<^verbatim>\<open>src/include/LinMpcEigen.hpp\<close> declares the struct \<^verbatim>\<open>LinearSystem\<close> and the class
  \<^verbatim>\<open>MPC\<close>; the file that defines their functions is not among the sources. The records follow
  the header, the functions follow the specification, and each says so.

  \<^verbatim>\<open>LinearSystem\<close>: the four matrices and the three dimensions, as the header declares them.
\<close>

record LinearSystem =
  A :: SparseMat
  B :: SparseMat
  C :: SparseMat
  D :: SparseMat
  n_x :: nat
  n_u :: nat
  n_y :: nat

text \<open>
  The failures of this part: the dimension mismatch that the constructor of a linear system
  reports with the shapes of the four matrices, and the assertion of Eigen on the sizes of
  the operands of a product or of a sum.
\<close>

datatype mpc_error = DimensionMismatch "(nat \<times> nat) list" | SizeMismatch

definition shape :: "SparseMat \<Rightarrow> nat \<times> nat" where
  "shape M = (rows M, cols M)"

text \<open>
  Modelled from the spec: \<^verbatim>\<open>LinearSystem::checkMatrixDimensions\<close>, declared in the header with
  the comment "throws an error if the system is ill defined"; its body is missing. The
  specification gives the invariant \<open>B.rows == A.rows == A.cols\<close>, \<open>C.cols == A.cols\<close>,
  \<open>D.rows == C.rows\<close>, \<open>D.cols == B.cols\<close> and a DimensionMismatch error that enumerates the
  shapes.
\<close>

definition checkMatrixDimensions :: "LinearSystem \<Rightarrow> mpc_error + unit" where
  "checkMatrixDimensions sys =
     (if rows (B sys) = rows (A sys) \<and> rows (A sys) = cols (A sys) \<and>
         cols (C sys) = cols (A sys) \<and> rows (D sys) = rows (C sys) \<and>
         cols (D sys) = cols (B sys)
      then Inr ()
      else Inl (DimensionMismatch [shape (A sys), shape (B sys), shape (C sys), shape (D sys)]))"

text \<open>
  Modelled from the spec: the constructor \<^verbatim>\<open>LinearSystem(A, B, C, D)\<close>, whose body is missing:
  it keeps the four matrices, reads the dimensions of the state, the input and the output
  off them, and validates once.
\<close>

definition LinearSystem_new ::
  "SparseMat \<Rightarrow> SparseMat \<Rightarrow> SparseMat \<Rightarrow> SparseMat \<Rightarrow> mpc_error + LinearSystem" where
  "LinearSystem_new a b c d =
     (let sys = \<lparr>A = a, B = b, C = c, D = d, n_x = rows a, n_u = cols b, n_y = rows c\<rparr>
      in case checkMatrixDimensions sys of Inl err \<Rightarrow> Inl err | Inr _ \<Rightarrow> Inr sys)"

text \<open>
  A sparse matrix given by its shape and its coefficients: the stored coefficients are the
  ones that are not zero. The products of Eigen are written with it.
\<close>

definition from_coeffs :: "nat \<Rightarrow> nat \<Rightarrow> (nat \<Rightarrow> nat \<Rightarrow> real) \<Rightarrow> SparseMat" where
  "from_coeffs r c f =
     \<lparr>rows = r, cols = c,
      nonzeros = filter (\<lambda>e. snd e \<noteq> 0)
        (map (\<lambda>p. (p, f (fst p) (snd p))) (List.product [0..<r] [0..<c]))\<rparr>"

text \<open>The product of two sparse matrices, \<^verbatim>\<open>P * Q\<close>.\<close>

definition mat_mul :: "SparseMat \<Rightarrow> SparseMat \<Rightarrow> SparseMat" where
  "mat_mul P Q =
     from_coeffs (rows P) (cols Q)
       (\<lambda>i j. sum_list (map (\<lambda>k. coeff P i k * coeff Q k j) [0..<cols P]))"

text \<open>
  Modelled from the spec: \<^verbatim>\<open>matrixPow(input_mat, power)\<close>, declared in the header; its body is
  missing. The specification calls it a matrix power by repeated multiplication.
\<close>

fun matrixPow :: "SparseMat \<Rightarrow> nat \<Rightarrow> SparseMat" where
  "matrixPow input_mat 0 = setIdentity (SparseMat_new (rows input_mat) (cols input_mat))"
| "matrixPow input_mat (Suc pwr) = mat_mul (matrixPow input_mat pwr) input_mat"

text \<open>
  The product of a sparse matrix and a dense vector, \<^verbatim>\<open>M * v\<close>, row by row, and the sum
  of two dense vectors. Eigen asserts that the sizes agree.
\<close>

definition row_dot :: "SparseMat \<Rightarrow> VecNd \<Rightarrow> nat \<Rightarrow> real" where
  "row_dot M v i = sum_list (map (\<lambda>j. coeff M i j * v ! j) [0..<cols M])"

definition mat_vec :: "SparseMat \<Rightarrow> VecNd \<Rightarrow> mpc_error + VecNd" where
  "mat_vec M v =
     (if cols M \<noteq> length v then Inl SizeMismatch
      else Inr (map (row_dot M v) [0..<rows M]))"

definition vec_add :: "VecNd \<Rightarrow> VecNd \<Rightarrow> mpc_error + VecNd" where
  "vec_add v w = (if length v \<noteq> length w then Inl SizeMismatch else Inr (map2 (+) v w))"

text \<open>
  \<^verbatim>\<open>MPC\<close>: the members that \<^verbatim>\<open>calculateX\<close> and \<^verbatim>\<open>calculateY\<close> read, as the header declares
  them.
\<close>

record MPC =
  linear_system_m :: LinearSystem
  N_m :: nat
  x0_m :: VecNd
  A_mpc_m :: SparseMat
  B_mpc_m :: SparseMat
  C_mpc_m :: SparseMat

text \<open>
  Modelled from the spec: the matrix \<open>A_mpc\<close> of \<^verbatim>\<open>MPC::setupMpcDynamics\<close>, which the header
  declares with the comment "Sets A_mpc, B_mpc, C_mpc" and whose body is missing. By the
  specification, \<open>A_mpc\<close> has \<open>N * n_x\<close> rows and \<open>N * n_u\<close> columns, its row block \<open>i\<close>
  and column block \<open>j\<close> with \<open>j <= i\<close> is \<open>A^(i-j) * B\<close>, and its other blocks are zero.
  Likewise \<open>B_mpc\<close> has \<open>N * n_x\<close> rows and \<open>n_x\<close> columns, and \<open>C_mpc\<close> has
  \<open>N * n_y\<close> rows and \<open>N * n_x\<close> columns.
\<close>

definition build_A_mpc :: "LinearSystem \<Rightarrow> nat \<Rightarrow> SparseMat" where
  "build_A_mpc sys N =
     from_coeffs (N * n_x sys) (N * n_u sys)
       (\<lambda>r c. let i = r div n_x sys; j = c div n_u sys
              in if j \<le> i
                 then coeff (mat_mul (matrixPow (A sys) (i - j)) (B sys))
                        (r mod n_x sys) (c mod n_u sys)
                 else 0)"

text \<open>
  Modelled from the spec: the matrix \<open>B_mpc\<close> of \<^verbatim>\<open>MPC::setupMpcDynamics\<close>, whose body is
  missing: row block \<open>i\<close> is \<open>A^(i+1)\<close>.
\<close>

definition build_B_mpc :: "LinearSystem \<Rightarrow> nat \<Rightarrow> SparseMat" where
  "build_B_mpc sys N =
     from_coeffs (N * n_x sys) (n_x sys)
       (\<lambda>r c. coeff (matrixPow (A sys) (r div n_x sys + 1)) (r mod n_x sys) c)"

text \<open>
  Modelled from the spec: the matrix \<open>C_mpc\<close> of \<^verbatim>\<open>MPC::setupMpcDynamics\<close>, whose body is
  missing: block diagonal, with \<open>C\<close> repeated for every step of the horizon.
\<close>

definition build_C_mpc :: "LinearSystem \<Rightarrow> nat \<Rightarrow> SparseMat" where
  "build_C_mpc sys N =
     from_coeffs (N * n_y sys) (N * n_x sys)
       (\<lambda>r c. if r div n_y sys = c div n_x sys
              then coeff (C sys) (r mod n_y sys) (c mod n_x sys) else 0)"

text \<open>
  Modelled from the spec: \<^verbatim>\<open>MPC::setupMpcDynamics\<close>, whose body is missing, sets the three
  rollout matrices from the system and the horizon.
\<close>

definition setupMpcDynamics :: "MPC \<Rightarrow> MPC" where
  "setupMpcDynamics mpc =
     mpc\<lparr>A_mpc_m := build_A_mpc (linear_system_m mpc) (N_m mpc),
         B_mpc_m := build_B_mpc (linear_system_m mpc) (N_m mpc),
         C_mpc_m := build_C_mpc (linear_system_m mpc) (N_m mpc)\<rparr>"

text \<open>
  Modelled from the spec: the constructors of \<^verbatim>\<open>MPC\<close>, whose bodies are missing, as far as the
  rollout goes: they keep the system, the horizon and the initial state, and the rollout
  matrices are built once from the system and the horizon.
\<close>

definition MPC_new :: "LinearSystem \<Rightarrow> nat \<Rightarrow> VecNd \<Rightarrow> MPC" where
  "MPC_new linear_system horizon x0 =
     setupMpcDynamics
       \<lparr>linear_system_m = linear_system, N_m = horizon, x0_m = x0,
        A_mpc_m = SparseMat_new 0 0, B_mpc_m = SparseMat_new 0 0, C_mpc_m = SparseMat_new 0 0\<rparr>"

text \<open>
  Modelled from the spec: \<^verbatim>\<open>MPC::calculateX\<close>, declared in the header; its body is missing.
  By the specification, \<open>X = A_mpc * U + B_mpc * x0\<close>.
\<close>

definition calculateX :: "MPC \<Rightarrow> VecNd \<Rightarrow> mpc_error + VecNd" where
  "calculateX mpc U_in =
     (case mat_vec (A_mpc_m mpc) U_in of
        Inl err \<Rightarrow> Inl err
      | Inr AU \<Rightarrow>
          (case mat_vec (B_mpc_m mpc) (x0_m mpc) of
             Inl err \<Rightarrow> Inl err
           | Inr Bx \<Rightarrow> vec_add AU Bx))"

text \<open>
  Modelled from the spec: \<^verbatim>\<open>MPC::calculateY\<close>, declared in the header; its body is missing.
  By the specification, \<open>Y = C_mpc * X\<close> with \<open>X\<close> from \<^verbatim>\<open>calculateX\<close>.
\<close>

definition calculateY :: "MPC \<Rightarrow> VecNd \<Rightarrow> mpc_error + VecNd" where
  "calculateY mpc U_in =
     (case calculateX mpc U_in of
        Inl err \<Rightarrow> Inl err
      | Inr X \<Rightarrow> mat_vec (C_mpc_m mpc) X)"

text \<open>
  The step-by-step simulation, as the specification words it: \<open>x' = A * x + B * u\<close> from the
  initial state on, one step for each control of the sequence, the states after each step
  stacked in order. The stacked control vector is cut into one control for each step.
\<close>

definition step :: "LinearSystem \<Rightarrow> VecNd \<Rightarrow> VecNd \<Rightarrow> mpc_error + VecNd" where
  "step sys x u =
     (case mat_vec (A sys) x of
        Inl err \<Rightarrow> Inl err
      | Inr Ax \<Rightarrow>
          (case mat_vec (B sys) u of
             Inl err \<Rightarrow> Inl err
           | Inr Bu \<Rightarrow> vec_add Ax Bu))"

fun simulate :: "LinearSystem \<Rightarrow> VecNd \<Rightarrow> VecNd list \<Rightarrow> mpc_error + VecNd" where
  "simulate sys x [] = Inr []"
| "simulate sys x (u # us) =
     (case step sys x u of
        Inl err \<Rightarrow> Inl err
      | Inr x' \<Rightarrow>
          (case simulate sys x' us of
             Inl err \<Rightarrow> Inl err
           | Inr X \<Rightarrow> Inr (x' @ X)))"

definition control_sequence :: "nat \<Rightarrow> nat \<Rightarrow> VecNd \<Rightarrow> VecNd list" where
  "control_sequence m N U = map (\<lambda>k. take m (drop (k * m) U)) [0..<N]"

text \<open>
  Coefficient \<open>r\<close> of the state after step \<open>k + 1\<close>, in closed form: the contributions of
  the controls up to step \<open>k\<close> and of the initial state.
\<close>

definition closed_form :: "LinearSystem \<Rightarrow> VecNd \<Rightarrow> VecNd list \<Rightarrow> nat \<Rightarrow> nat \<Rightarrow> real" where
  "closed_form sys x us k r =
     (\<Sum>j\<le>k. \<Sum>q<n_u sys.
        coeff (mat_mul (matrixPow (A sys) (k - j)) (B sys)) r q * (us ! j) ! q) +
     (\<Sum>c<n_x sys. coeff (matrixPow (A sys) (k + 1)) r c * x ! c)"

text \<open>
  A double integrator with two states, one input and one output, at which the theorem on the
  rollout is instantiated.
\<close>

definition example_system :: LinearSystem where
  "example_system =
     \<lparr>A = \<lparr>rows = 2, cols = 2, nonzeros = [((0, 0), 1), ((0, 1), 1), ((1, 1), 1)]\<rparr>,
      B = \<lparr>rows = 2, cols = 1, nonzeros = [((1, 0), 1)]\<rparr>,
      C = \<lparr>rows = 1, cols = 2, nonzeros = [((0, 0), 1)]\<rparr>,
      D = \<lparr>rows = 1, cols = 1, nonzeros = []\<rparr>,
      n_x = 2, n_u = 1, n_y = 1\<rparr>"

section \<open>The stacked layout\<close>

text \<open>
  A QP problem of consistent dimensions: the Hessian is square over the variables, every
  constraint matrix has one column for each variable, every right-hand side has one entry for
  each row of its matrix, the box bounds have one entry for each variable, and the sparse
  matrices are well-formed.
\<close>

definition dimensions_consistent :: "SparseQpProblem \<Rightarrow> bool" where
  "dimensions_consistent qp \<longleftrightarrow>
     wellformed (A_qp qp) \<and> wellformed (A_eq qp) \<and> wellformed (A_ieq qp) \<and>
     cols (A_qp qp) = rows (A_qp qp) \<and>
     length (b_qp qp) = rows (A_qp qp) \<and>
     cols (A_eq qp) = rows (A_qp qp) \<and>
     length (b_eq qp) = rows (A_eq qp) \<and>
     cols (A_ieq qp) = rows (A_qp qp) \<and>
     length (b_ieq qp) = rows (A_ieq qp) \<and>
     length (lower_bound qp) = rows (A_qp qp) \<and>
     length (upper_bound qp) = rows (A_qp qp)"

text \<open>The stacked constraint count is a value of \<^verbatim>\<open>uint32_t\<close>, the type of the offsets
  of \<^verbatim>\<open>setSparseBlock\<close> and of \<^verbatim>\<open>bound_dim\<close>.\<close>

definition fits_uint32 :: "SparseQpProblem \<Rightarrow> bool" where
  "fits_uint32 qp \<longleftrightarrow>
     length (upper_bound qp) + rows (A_eq qp) + rows (A_ieq qp) < 2 ^ 32"

text \<open>The stored coefficients of an identity matrix.\<close>

definition identity_entries :: "nat \<Rightarrow> ((nat \<times> nat) \<times> real) list" where
  "identity_entries n = map (\<lambda>k. ((k, k), 1)) [0..<n]"

text \<open>
  The stacked constraint matrix as the specification words it: an identity block, then
  \<open>A_eq\<close>, then \<open>A_ieq\<close>, at consecutive row offsets from 0 on, all at column 0.
\<close>

definition stacked_constraints :: "SparseQpProblem \<Rightarrow> SparseMat" where
  "stacked_constraints qp =
     \<lparr>rows = length (upper_bound qp) + rows (A_eq qp) + rows (A_ieq qp),
      cols = rows (A_qp qp),
      nonzeros =
        map (shift_entry 0 0) (identity_entries (length (upper_bound qp))) @
        map (shift_entry (length (upper_bound qp)) 0) (nonzeros (A_eq qp)) @
        map (shift_entry (length (upper_bound qp) + rows (A_eq qp)) 0) (nonzeros (A_ieq qp))\<rparr>"

text \<open>
  An initialized session: the solver holds the gradient, the constraint matrix and the two
  bound vectors that the adapter keeps as members, a Hessian is loaded, warm start is
  switched on, and the last call to the solver set it up with these data. The constructor
  establishes it and the two update functions keep it.
\<close>

definition initialized :: "OsqpEigenOpt \<Rightarrow> bool" where
  "initialized s \<longleftrightarrow>
     hessianMatrix (data (solver_m s)) \<noteq> None \<and>
     gradient (data (solver_m s)) = Some (b_qp_m s) \<and>
     linearConstraintsMatrix (data (solver_m s)) = Some (linearConstraintsMatrix_m s) \<and>
     lowerBound (data (solver_m s)) = Some (lower_bound_m s) \<and>
     upperBound (data (solver_m s)) = Some (upper_bound_m s) \<and>
     length (lower_bound_m s) = length (upper_bound_m s) \<and>
     length (lower_bound_m s) < 2 ^ 32 \<and>
     warmStart (settings (solver_m s)) = Some True \<and>
     calls (solver_m s) \<noteq> [] \<and>
     last (calls (solver_m s)) = InitSolver (data (solver_m s))"

section \<open>A small problem and its session\<close>

text \<open>
  A QP problem with two variables, one equality row and one inequality row, and the session
  that the constructor builds from it with \<open>infty = 1000\<close>, no time limit and no
  verbosity. They are the concrete inputs at which the theorems below are instantiated.
\<close>

definition example_qp :: SparseQpProblem where
  "example_qp =
     \<lparr>A_qp = \<lparr>rows = 2, cols = 2, nonzeros = [((0, 0), 2), ((1, 1), 2)]\<rparr>,
      b_qp = [1, 1],
      A_eq = \<lparr>rows = 1, cols = 2, nonzeros = [((0, 0), 1), ((0, 1), 1)]\<rparr>,
      b_eq = [3],
      A_ieq = \<lparr>rows = 1, cols = 2, nonzeros = [((0, 1), 1)]\<rparr>,
      b_ieq = [4],
      lower_bound = [- 1, - 2],
      upper_bound = [1, 2]\<rparr>"

definition example_session :: OsqpEigenOpt where
  "example_session =
     \<lparr>alpha_m = 1, n_m = 2, m_m = 4,
      linearConstraintsMatrix_m = \<lparr>rows = 4, cols = 2,
        nonzeros = [((0, 0), 1), ((1, 1), 1), ((2, 0), 1), ((2, 1), 1), ((3, 1), 1)]\<rparr>,
      b_qp_m = [1, 1],
      lower_bound_m = [- 1, - 2, - 3, - 1000],
      upper_bound_m = [1, 2, - 3, - 4],
      solver_m =
        \<lparr>settings = \<lparr>verbosity = Some False, alpha = Some 1,
           absoluteTolerance = Some (1 / 10 ^ 6), relativeTolerance = Some (1 / 10 ^ 6),
           warmStart = Some True, maxIteration = Some 10000, timeLimit = Some 0,
           adaptiveRho = Some True, adaptiveRhoInterval = Some 5\<rparr>,
         data = \<lparr>numberOfVariables = Some 2, numberOfConstraints = Some 4,
           hessianMatrix = Some \<lparr>rows = 2, cols = 2, nonzeros = [((0, 0), 2), ((1, 1), 2)]\<rparr>,
           gradient = Some [1, 1],
           linearConstraintsMatrix = Some \<lparr>rows = 4, cols = 2,
             nonzeros = [((0, 0), 1), ((1, 1), 1), ((2, 0), 1), ((2, 1), 1), ((3, 1), 1)]\<rparr>,
           lowerBound = Some [- 1, - 2, - 3, - 1000],
           upperBound = Some [1, 2, - 3, - 4]\<rparr>,
         calls = [ClearSolver, InitSolver
           \<lparr>numberOfVariables = Some 2, numberOfConstraints = Some 4,
            hessianMatrix = Some \<lparr>rows = 2, cols = 2, nonzeros = [((0, 0), 2), ((1, 1), 2)]\<rparr>,
            gradient = Some [1, 1],
            linearConstraintsMatrix = Some \<lparr>rows = 4, cols = 2,
              nonzeros = [((0, 0), 1), ((1, 1), 1), ((2, 0), 1), ((2, 1), 1), ((3, 1), 1)]\<rparr>,
            lowerBound = Some [- 1, - 2, - 3, - 1000],
            upperBound = Some [1, 2, - 3, - 4]\<rparr>],
         solution = [], status = 0\<rparr>\<rparr>"

section \<open>Properties of the block inserter\<close>

lemma map_of_snoc_None:
  "map_of (xs @ [(k, v)]) k' = None \<longleftrightarrow> map_of xs k' = None \<and> k' \<noteq> k"
  by (auto simp: map_add_def split: option.splits)

lemma list_all_notI: "x \<in> set xs \<Longrightarrow> \<not> P x \<Longrightarrow> \<not> list_all P xs"
  by (auto simp: list_all_iff)

lemma insert_all_fresh:
  "distinct (map fst es) \<Longrightarrow>
   list_all (\<lambda>e. fst (fst e) + i < rows M \<and> snd (fst e) + j < cols M) es \<Longrightarrow>
   list_all (\<lambda>e. map_of (nonzeros M) (fst (fst e) + i, snd (fst e) + j) = None) es \<Longrightarrow>
   insert_all M es i j = Inr (M\<lparr>nonzeros := nonzeros M @ map (shift_entry i j) es\<rparr>)"
proof (induction es arbitrary: M)
  case Nil
  show ?case by simp
next
  case (Cons e es)
  let ?M' = "M\<lparr>nonzeros := nonzeros M @ [((fst (fst e) + i, snd (fst e) + j), snd e)]\<rparr>"
  from Cons.prems have step: "insert_coeff M (fst (fst e) + i) (snd (fst e) + j) (snd e) = Inr ?M'"
    by (simp add: insert_coeff_def)
  have d: "distinct (map fst es)" using Cons.prems(1) by simp
  have r: "list_all (\<lambda>e. fst (fst e) + i < rows ?M' \<and> snd (fst e) + j < cols ?M') es"
    using Cons.prems(2) by simp
  have f: "list_all (\<lambda>x. map_of (nonzeros ?M') (fst (fst x) + i, snd (fst x) + j) = None) es"
    unfolding list_all_iff
  proof
    fix x assume x: "x \<in> set es"
    then have "fst x \<in> set (map fst es)" by simp
    moreover have "fst e \<notin> set (map fst es)" using Cons.prems(1) by simp
    ultimately have "fst x \<noteq> fst e" by metis
    then have "(fst (fst x) + i, snd (fst x) + j) \<noteq> (fst (fst e) + i, snd (fst e) + j)"
      by (auto simp: prod_eq_iff)
    moreover have "map_of (nonzeros M) (fst (fst x) + i, snd (fst x) + j) = None"
      using Cons.prems(3) x by (simp add: list_all_iff)
    ultimately show "map_of (nonzeros ?M') (fst (fst x) + i, snd (fst x) + j) = None"
      by (simp add: map_of_snoc_None)
  qed
  show ?case
    using Cons.IH [OF d r f] step by (simp add: shift_entry_def)
qed

lemma insert_all_clash:
  "list_all (\<lambda>e. fst (fst e) + i < rows M \<and> snd (fst e) + j < cols M) es \<Longrightarrow>
   \<not> list_all (\<lambda>e. map_of (nonzeros M) (fst (fst e) + i, snd (fst e) + j) = None) es \<Longrightarrow>
   insert_all M es i j = Inl InsertExisting"
proof (induction es arbitrary: M)
  case Nil
  then show ?case by simp
next
  case (Cons e es)
  show ?case
  proof (cases "map_of (nonzeros M) (fst (fst e) + i, snd (fst e) + j) = None")
    case False
    then show ?thesis using Cons.prems(1) by (simp add: insert_coeff_def)
  next
    case True
    let ?M' = "M\<lparr>nonzeros := nonzeros M @ [((fst (fst e) + i, snd (fst e) + j), snd e)]\<rparr>"
    have step: "insert_coeff M (fst (fst e) + i) (snd (fst e) + j) (snd e) = Inr ?M'"
      using True Cons.prems(1) by (simp add: insert_coeff_def)
    have r: "list_all (\<lambda>e. fst (fst e) + i < rows ?M' \<and> snd (fst e) + j < cols ?M') es"
      using Cons.prems(1) by simp
    from Cons.prems(2) True
    have "\<not> list_all (\<lambda>e. map_of (nonzeros M) (fst (fst e) + i, snd (fst e) + j) = None) es"
      by simp
    then obtain x where x: "x \<in> set es"
      and nz: "map_of (nonzeros M) (fst (fst x) + i, snd (fst x) + j) \<noteq> None"
      unfolding list_all_iff by blast
    have "\<not> list_all (\<lambda>e. map_of (nonzeros ?M') (fst (fst e) + i, snd (fst e) + j) = None) es"
    proof (rule list_all_notI [OF x])
      show "\<not> map_of (nonzeros ?M') (fst (fst x) + i, snd (fst x) + j) = None"
        using nz by (simp add: map_of_snoc_None)
    qed
    from Cons.IH [OF r this] step show ?thesis by simp
  qed
qed

lemma fits_in_range:
  assumes "wellformed input_block" and "\<not> cant_fit output_matrix input_block i j"
  shows "list_all (\<lambda>e. fst (fst e) + i < rows output_matrix \<and> snd (fst e) + j < cols output_matrix)
           (nonzeros input_block)"
  using assms unfolding wellformed_def cant_fit_def list_all_iff by auto

lemma setSparseBlock_fresh:
  assumes "wellformed input_block" and "\<not> cant_fit output_matrix input_block i j"
    and "no_overlap output_matrix input_block i j"
  shows "setSparseBlock output_matrix input_block i j =
           Inr (output_matrix\<lparr>nonzeros := nonzeros output_matrix @
                  map (shift_entry i j) (nonzeros input_block)\<rparr>)"
proof -
  have "distinct (map fst (nonzeros input_block))"
    using assms(1) by (simp add: wellformed_def)
  from insert_all_fresh [OF this fits_in_range [OF assms(1,2)]] assms(2,3)
  show ?thesis by (simp add: setSparseBlock_def no_overlap_def)
qed

lemma setSparseBlock_clash:
  assumes "wellformed input_block" and "\<not> cant_fit output_matrix input_block i j"
    and "\<not> no_overlap output_matrix input_block i j"
  shows "setSparseBlock output_matrix input_block i j = Inl InsertExisting"
  using insert_all_clash [OF fits_in_range [OF assms(1,2)]] assms(2,3)
  by (simp add: setSparseBlock_def no_overlap_def)


lemma setSparseBlock_overflow:
  assumes "cant_fit output_matrix input_block i j"
  shows "setSparseBlock output_matrix input_block i j =
           Inl (runtime_error ''setSparseBlock: Can't fit block''
             [(''input_block.cols() = '', int (cols input_block)),
              (''input_block.rows() = '', int (rows input_block)),
              (''output_matrix.cols() - i = '', int (cols output_matrix) - int i),
              (''output_matrix.rows() - j = '', int (rows output_matrix) - int j)])"
  using assms by (simp add: setSparseBlock_def)

text \<open>
  Claim C4. A block that does not fit makes \<^verbatim>\<open>setSparseBlock\<close> fail, and the failure is
  meant to report the shape of the block and the rows and columns that the target has left.
  The guard compares the block with \<open>rows - i\<close> and \<open>cols - j\<close>, but the two printed
  lines swap the offsets: they show \<open>cols - i\<close> and \<open>rows - j\<close>. For a target of 2 rows
  and 5 columns, a block of 3 rows and 1 column and the offsets \<open>i = 0\<close>, \<open>j = 4\<close>, the
  target has 2 rows and 1 column left, and the call prints 5 and -2.
\<close>

theorem setSparseBlock_report_swaps_offsets:
  "setSparseBlock (SparseMat_new 2 5) (SparseMat_new 3 1) 0 4 =
     Inl (runtime_error ''setSparseBlock: Can't fit block''
       [(''input_block.cols() = '', 1),
        (''input_block.rows() = '', 3),
        (''output_matrix.cols() - i = '', 5),
        (''output_matrix.rows() - j = '', - 2)])
   \<and> remaining_rows (SparseMat_new 2 5) 0 = 2
   \<and> remaining_cols (SparseMat_new 2 5) 4 = 1"
  by (simp add: setSparseBlock_def cant_fit_def SparseMat_new_def
      remaining_rows_def remaining_cols_def)

text \<open>
  Claim C9. \<^verbatim>\<open>setSparseBlock\<close> writes through \<^verbatim>\<open>insert\<close>, which is for positions that are not
  stored yet. For a well-formed block that fits, the call is defined exactly when no stored
  coefficient of the target sits at a position that a coefficient of the block maps to: then
  the target keeps its coefficients and gains the shifted ones of the block; otherwise the
  call stops at the assertion of \<^verbatim>\<open>insert\<close>, and nothing is overwritten or added up.
\<close>

theorem setSparseBlock_needs_free_positions:
  assumes "wellformed input_block" and "\<not> cant_fit output_matrix input_block i j"
  shows "if no_overlap output_matrix input_block i j
         then setSparseBlock output_matrix input_block i j =
                Inr (output_matrix\<lparr>nonzeros := nonzeros output_matrix @
                       map (shift_entry i j) (nonzeros input_block)\<rparr>)
         else setSparseBlock output_matrix input_block i j = Inl InsertExisting"
  using setSparseBlock_fresh [OF assms] setSparseBlock_clash [OF assms] by simp

theorem setSparseBlock_needs_free_positions_witness:
  "wellformed \<lparr>rows = 1, cols = 1, nonzeros = [((0, 0), 7)]\<rparr>
   \<and> \<not> cant_fit \<lparr>rows = 2, cols = 2, nonzeros = [((0, 0), 5)]\<rparr>
         \<lparr>rows = 1, cols = 1, nonzeros = [((0, 0), 7)]\<rparr> 0 0
   \<and> \<not> no_overlap \<lparr>rows = 2, cols = 2, nonzeros = [((0, 0), 5)]\<rparr>
         \<lparr>rows = 1, cols = 1, nonzeros = [((0, 0), 7)]\<rparr> 0 0
   \<and> setSparseBlock \<lparr>rows = 2, cols = 2, nonzeros = [((0, 0), 5)]\<rparr>
         \<lparr>rows = 1, cols = 1, nonzeros = [((0, 0), 7)]\<rparr> 0 0 = Inl InsertExisting
   \<and> no_overlap \<lparr>rows = 2, cols = 2, nonzeros = [((0, 0), 5)]\<rparr>
         \<lparr>rows = 1, cols = 1, nonzeros = [((0, 0), 7)]\<rparr> 1 1
   \<and> setSparseBlock \<lparr>rows = 2, cols = 2, nonzeros = [((0, 0), 5)]\<rparr>
         \<lparr>rows = 1, cols = 1, nonzeros = [((0, 0), 7)]\<rparr> 1 1 =
       Inr \<lparr>rows = 2, cols = 2, nonzeros = [((0, 0), 5), ((1, 1), 7)]\<rparr>"
proof -
  let ?out = "\<lparr>rows = 2, cols = 2, nonzeros = [((0, 0), 5 :: real)]\<rparr>"
  let ?blk = "\<lparr>rows = 1, cols = 1, nonzeros = [((0, 0), 7 :: real)]\<rparr>"
  have w: "wellformed ?blk" by (simp add: wellformed_def)
  have f0: "\<not> cant_fit ?out ?blk 0 0" by (simp add: cant_fit_def)
  have f1: "\<not> cant_fit ?out ?blk 1 1" by (simp add: cant_fit_def)
  have o0: "\<not> no_overlap ?out ?blk 0 0" by (simp add: no_overlap_def)
  have o1: "no_overlap ?out ?blk 1 1" by (simp add: no_overlap_def)
  show ?thesis
    using w f0 o0 o1 setSparseBlock_needs_free_positions [OF w f0]
      setSparseBlock_needs_free_positions [OF w f1]
    by (simp add: shift_entry_def)
qed

section \<open>The box and affine layout\<close>

lemma SparseMat_new_sel [simp]:
  "rows (SparseMat_new r c) = r" "cols (SparseMat_new r c) = c" "nonzeros (SparseMat_new r c) = []"
  by (simp_all add: SparseMat_new_def)

lemma SparseMat_new_update [simp]:
  "(SparseMat_new r c)\<lparr>nonzeros := xs\<rparr> = \<lparr>rows = r, cols = c, nonzeros = xs\<rparr>"
  by (simp add: SparseMat_new_def)

lemma nonzeros_setIdentity [simp]:
  "nonzeros (setIdentity (SparseMat_new n n)) = identity_entries n"
  by (simp add: setIdentity_def SparseMat_new_def identity_entries_def)

lemma shape_setIdentity [simp]:
  "rows (setIdentity (SparseMat_new n n)) = n" "cols (setIdentity (SparseMat_new n n)) = n"
  by (simp_all add: setIdentity_def SparseMat_new_def)

lemma wellformed_setIdentity: "wellformed (setIdentity (SparseMat_new n n))"
  by (simp add: wellformed_def identity_entries_def list_all_iff distinct_map inj_on_def comp_def)

lemma no_overlap_rows_below:
  assumes "list_all (\<lambda>e. fst (fst e) < i) (nonzeros output_matrix)"
  shows "no_overlap output_matrix input_block i j"
  unfolding no_overlap_def list_all_iff
proof
  fix e assume "e \<in> set (nonzeros input_block)"
  have "(fst (fst e) + i, snd (fst e) + j) \<notin> fst ` set (nonzeros output_matrix)"
  proof
    assume "(fst (fst e) + i, snd (fst e) + j) \<in> fst ` set (nonzeros output_matrix)"
    then obtain x where "x \<in> set (nonzeros output_matrix)" and "fst x = (fst (fst e) + i, snd (fst e) + j)"
      by auto
    with assms show False by (auto simp: list_all_iff)
  qed
  then show "map_of (nonzeros output_matrix) (fst (fst e) + i, snd (fst e) + j) = None"
    by (simp add: map_of_eq_None_iff)
qed

lemma rows_below_shift:
  assumes "list_all (\<lambda>e. fst (fst e) < r) es"
  shows "list_all (\<lambda>e. fst (fst e) < r + i) (map (shift_entry i j) es)"
  using assms by (simp add: list_all_iff shift_entry_def)

lemma rows_below_wellformed:
  "wellformed M \<Longrightarrow> list_all (\<lambda>e. fst (fst e) < rows M) (nonzeros M)"
  by (simp add: wellformed_def list_all_iff)

lemma rows_below_mono:
  "list_all (\<lambda>e. fst (fst e) < (r::nat)) es \<Longrightarrow> r \<le> r' \<Longrightarrow> list_all (\<lambda>e. fst (fst e) < r') es"
  unfolding list_all_iff by (meson less_le_trans)

lemma map_of_append_case:
  "map_of (xs @ ys) k = (case map_of xs k of None \<Rightarrow> map_of ys k | Some v \<Rightarrow> Some v)"
  by (simp add: map_add_def split: option.splits)

lemma map_of_shift:
  "map_of (map (shift_entry i j) es) (r, c) =
     (if i \<le> r \<and> j \<le> c then map_of es (r - i, c - j) else None)"
  by (induction es) (auto simp: shift_entry_def)

lemma map_of_identity_entries:
  "map_of (identity_entries n) (r, c) = (if r = c \<and> r < n then Some 1 else None)"
proof -
  have "map_of (identity_entries n) (r, c) = None" if "\<not> (r = c \<and> r < n)"
  proof -
    have "(r, c) \<notin> fst ` set (identity_entries n)"
      using that by (auto simp: identity_entries_def)
    then show ?thesis by (simp add: map_of_eq_None_iff)
  qed
  moreover have "map_of (identity_entries n) (r, c) = Some 1" if "r = c \<and> r < n"
  proof -
    have "distinct (map fst (identity_entries n))"
      by (simp add: identity_entries_def distinct_map inj_on_def comp_def)
    moreover have "((r, c), 1) \<in> set (identity_entries n)"
      using that by (auto simp: identity_entries_def)
    ultimately show ?thesis by (rule map_of_is_SomeI)
  qed
  ultimately show ?thesis by simp
qed

lemma map_of_outside:
  assumes "wellformed M" and "rows M \<le> r"
  shows "map_of (nonzeros M) (r, c) = None"
proof -
  have "(r, c) \<notin> fst ` set (nonzeros M)"
    using assms by (auto simp: wellformed_def list_all_iff)
  then show ?thesis by (simp add: map_of_eq_None_iff)
qed

lemma initializeSolver_blocks:
  assumes w1: "wellformed A1" and w2: "wellformed A2"
    and c0: "nb \<le> n" and c1: "cols A1 \<le> n" and c2: "cols A2 \<le> n"
    and u: "nb + rows A1 < 2 ^ 32"
  shows "setSparseBlock (SparseMat_new (nb + rows A1 + rows A2) n)
           (setIdentity (SparseMat_new nb nb)) 0 0 =
           Inr \<lparr>rows = nb + rows A1 + rows A2, cols = n,
                nonzeros = map (shift_entry 0 0) (identity_entries nb)\<rparr>"
    and "setSparseBlock \<lparr>rows = nb + rows A1 + rows A2, cols = n,
                nonzeros = map (shift_entry 0 0) (identity_entries nb)\<rparr>
           A1 (to_uint32 nb) 0 =
           Inr \<lparr>rows = nb + rows A1 + rows A2, cols = n,
                nonzeros = map (shift_entry 0 0) (identity_entries nb) @
                           map (shift_entry nb 0) (nonzeros A1)\<rparr>"
    and "setSparseBlock \<lparr>rows = nb + rows A1 + rows A2, cols = n,
                nonzeros = map (shift_entry 0 0) (identity_entries nb) @
                           map (shift_entry nb 0) (nonzeros A1)\<rparr>
           A2 (to_uint32 (nb + rows A1)) 0 =
           Inr \<lparr>rows = nb + rows A1 + rows A2, cols = n,
                nonzeros = map (shift_entry 0 0) (identity_entries nb) @
                           map (shift_entry nb 0) (nonzeros A1) @
                           map (shift_entry (nb + rows A1) 0) (nonzeros A2)\<rparr>"
proof -
  let ?m = "nb + rows A1 + rows A2"
  let ?I = "map (shift_entry 0 0) (identity_entries nb)"
  let ?E = "map (shift_entry nb 0) (nonzeros A1)"
  have u1: "to_uint32 nb = nb" and u2: "to_uint32 (nb + rows A1) = nb + rows A1"
    using u by (simp_all add: to_uint32_def)
  have belowI: "list_all (\<lambda>e. fst (fst e) < nb) ?I"
    by (simp add: list_all_iff shift_entry_def identity_entries_def)
  have belowE: "list_all (\<lambda>e. fst (fst e) < nb + rows A1) ?E"
    using rows_below_shift [OF rows_below_wellformed [OF w1], of nb 0] by (simp add: add.commute)
  show "setSparseBlock (SparseMat_new ?m n) (setIdentity (SparseMat_new nb nb)) 0 0 =
          Inr \<lparr>rows = ?m, cols = n, nonzeros = ?I\<rparr>"
  proof -
    have "\<not> cant_fit (SparseMat_new ?m n) (setIdentity (SparseMat_new nb nb)) 0 0"
      using c0 by (simp add: cant_fit_def)
    moreover have "no_overlap (SparseMat_new ?m n) (setIdentity (SparseMat_new nb nb)) 0 0"
      by (simp add: no_overlap_def list_all_iff)
    ultimately show ?thesis
      using setSparseBlock_fresh [OF wellformed_setIdentity, of "SparseMat_new ?m n" nb 0 0]
      by simp
  qed
  show "setSparseBlock \<lparr>rows = ?m, cols = n, nonzeros = ?I\<rparr> A1 (to_uint32 nb) 0 =
          Inr \<lparr>rows = ?m, cols = n, nonzeros = ?I @ ?E\<rparr>"
    unfolding u1
    using setSparseBlock_fresh [OF w1, of "\<lparr>rows = ?m, cols = n, nonzeros = ?I\<rparr>" nb 0]
      no_overlap_rows_below [of nb "\<lparr>rows = ?m, cols = n, nonzeros = ?I\<rparr>" A1 0] belowI c1
    by (simp add: cant_fit_def)
  have belowIE: "list_all (\<lambda>e. fst (fst e) < nb + rows A1) (?I @ ?E)"
    using rows_below_mono [OF belowI, of "nb + rows A1"] belowE by simp
  show "setSparseBlock \<lparr>rows = ?m, cols = n, nonzeros = ?I @ ?E\<rparr> A2
          (to_uint32 (nb + rows A1)) 0 =
          Inr \<lparr>rows = ?m, cols = n,
               nonzeros = ?I @ ?E @ map (shift_entry (nb + rows A1) 0) (nonzeros A2)\<rparr>"
    unfolding u2
    using setSparseBlock_fresh [OF w2, of "\<lparr>rows = ?m, cols = n, nonzeros = ?I @ ?E\<rparr>"
        "nb + rows A1" 0]
      no_overlap_rows_below [of "nb + rows A1" "\<lparr>rows = ?m, cols = n, nonzeros = ?I @ ?E\<rparr>" A2 0]
      belowIE c2
    by (simp add: cant_fit_def)
qed

lemma coeff_stacked_constraints:
  assumes w1: "wellformed (A_eq qp)" and w2: "wellformed (A_ieq qp)"
  shows "coeff (stacked_constraints qp) r c =
    (if r < length (upper_bound qp) then (if c = r then 1 else 0)
     else if r < length (upper_bound qp) + rows (A_eq qp)
       then coeff (A_eq qp) (r - length (upper_bound qp)) c
     else coeff (A_ieq qp) (r - length (upper_bound qp) - rows (A_eq qp)) c)"
proof -
  let ?nb = "length (upper_bound qp)"
  let ?ne = "rows (A_eq qp)"
  consider (box) "r < ?nb" | (eq) "?nb \<le> r" "r < ?nb + ?ne" | (ieq) "?nb + ?ne \<le> r"
    by linarith
  then show ?thesis
  proof cases
    case box
    then show ?thesis
      by (simp add: coeff_def stacked_constraints_def map_of_append_case map_of_shift
          map_of_identity_entries del: map_of_append)
  next
    case eq
    then show ?thesis
      by (simp add: coeff_def stacked_constraints_def map_of_append_case map_of_shift
          map_of_identity_entries del: map_of_append split: option.splits)
  next
    case ieq
    then have "rows (A_eq qp) \<le> r - ?nb" by simp
    from map_of_outside [OF w1 this] ieq show ?thesis
      by (simp add: coeff_def stacked_constraints_def map_of_append_case map_of_shift
          map_of_identity_entries diff_diff_eq del: map_of_append)
  qed
qed

lemma OsqpEigenOpt_new_consistent:
  assumes dc: "dimensions_consistent qp" and fu: "fits_uint32 qp"
  shows "\<exists>s. OsqpEigenOpt_new infty qp time_limit verb = Inr s
     \<and> n_m s = rows (A_qp qp)
     \<and> m_m s = length (upper_bound qp) + rows (A_eq qp) + rows (A_ieq qp)
     \<and> linearConstraintsMatrix_m s = stacked_constraints qp
     \<and> b_qp_m s = b_qp qp
     \<and> lower_bound_m s =
         lower_bound qp @ map uminus (b_eq qp) @ replicate (length (b_ieq qp)) (- infty)
     \<and> upper_bound_m s = upper_bound qp @ map uminus (b_eq qp) @ map uminus (b_ieq qp)
     \<and> numberOfVariables (data (solver_m s)) = Some (rows (A_qp qp))
     \<and> numberOfConstraints (data (solver_m s)) =
         Some (length (upper_bound qp) + rows (A_eq qp) + rows (A_ieq qp))
     \<and> hessianMatrix (data (solver_m s)) = Some (A_qp qp)
     \<and> initialized s"
proof -
  let ?nb = "length (upper_bound qp)"
  have w1: "wellformed (A_eq qp)" and w2: "wellformed (A_ieq qp)"
    and c0: "?nb \<le> rows (A_qp qp)" and c1: "cols (A_eq qp) \<le> rows (A_qp qp)"
    and c2: "cols (A_ieq qp) \<le> rows (A_qp qp)"
    using dc by (simp_all add: dimensions_consistent_def)
  have u: "?nb + rows (A_eq qp) < 2 ^ 32"
    using fu by (simp add: fits_uint32_def)
  have len: "length (lower_bound qp) = ?nb" "length (b_eq qp) = rows (A_eq qp)"
    "length (b_ieq qp) = rows (A_ieq qp)"
    using dc by (simp_all add: dimensions_consistent_def)
  note blocks = initializeSolver_blocks [OF w1 w2 c0 c1 c2 u]
  show ?thesis
    using fu len
    by (simp add: OsqpEigenOpt_new_def initializeSolver_def Let_def blocks
        stacked_constraints_def initialized_def fits_uint32_def initSolver_def clearSolver_def
        Solver_new_def map_replicate_const)
qed

lemma example_qp_consistent: "dimensions_consistent example_qp"
  by (simp add: dimensions_consistent_def example_qp_def wellformed_def)

lemma example_qp_fits: "fits_uint32 example_qp"
  by (simp add: fits_uint32_def example_qp_def)

lemma example_session_built: "OsqpEigenOpt_new 1000 example_qp 0 False = Inr example_session"
  by (simp add: OsqpEigenOpt_new_def initializeSolver_def example_qp_def example_session_def
      setSparseBlock_def cant_fit_def insert_coeff_def to_uint32_def setIdentity_def
      SparseMat_new_def Solver_new_def initSolver_def clearSolver_def Let_def)

lemma example_session_initialized: "initialized example_session"
  by (simp add: initialized_def example_session_def)

text \<open>
  Claim C1. For a QP problem of consistent dimensions (whose stacked constraint count is a
  \<^verbatim>\<open>uint32_t\<close> value), the constructor with \<^verbatim>\<open>initializeSolver\<close> succeeds and loads the
  stacked constraint matrix: its row blocks are, in order, an identity block, \<open>A_eq\<close> and
  \<open>A_ieq\<close>, placed by \<^verbatim>\<open>setSparseBlock\<close> at the consecutive row offsets from 0 on. The
  stacked lower bound is the lower box bounds, then \<open>- b_eq\<close>, then \<open>- infty\<close> for every
  inequality row; the stacked upper bound is the upper box bounds, then \<open>- b_eq\<close>, then
  \<open>- b_ieq\<close>.
\<close>

theorem initialize_box_affine_layout:
  assumes "dimensions_consistent qp" and "fits_uint32 qp"
  shows "\<exists>s M. OsqpEigenOpt_new infty qp time_limit verb = Inr s
     \<and> linearConstraintsMatrix (data (solver_m s)) = Some M
     \<and> M = stacked_constraints qp
     \<and> rows M = length (upper_bound qp) + rows (A_eq qp) + rows (A_ieq qp)
     \<and> cols M = rows (A_qp qp)
     \<and> (\<forall>r c. coeff M r c =
          (if r < length (upper_bound qp) then (if c = r then 1 else 0)
           else if r < length (upper_bound qp) + rows (A_eq qp)
             then coeff (A_eq qp) (r - length (upper_bound qp)) c
           else coeff (A_ieq qp) (r - length (upper_bound qp) - rows (A_eq qp)) c))
     \<and> lowerBound (data (solver_m s)) =
         Some (lower_bound qp @ map uminus (b_eq qp) @ replicate (length (b_ieq qp)) (- infty))
     \<and> upperBound (data (solver_m s)) =
         Some (upper_bound qp @ map uminus (b_eq qp) @ map uminus (b_ieq qp))"
proof -
  from OsqpEigenOpt_new_consistent [OF assms, of infty time_limit verb]
  obtain s where s: "OsqpEigenOpt_new infty qp time_limit verb = Inr s"
    and M: "linearConstraintsMatrix_m s = stacked_constraints qp"
    and L: "lower_bound_m s =
         lower_bound qp @ map uminus (b_eq qp) @ replicate (length (b_ieq qp)) (- infty)"
    and U: "upper_bound_m s = upper_bound qp @ map uminus (b_eq qp) @ map uminus (b_ieq qp)"
    and i: "initialized s"
    by blast
  have w: "wellformed (A_eq qp)" "wellformed (A_ieq qp)"
    using assms(1) by (simp_all add: dimensions_consistent_def)
  have "linearConstraintsMatrix (data (solver_m s)) = Some (stacked_constraints qp)"
    using i M by (simp add: initialized_def)
  moreover have "lowerBound (data (solver_m s)) =
         Some (lower_bound qp @ map uminus (b_eq qp) @ replicate (length (b_ieq qp)) (- infty))"
    using i L by (simp add: initialized_def)
  moreover have "upperBound (data (solver_m s)) =
         Some (upper_bound qp @ map uminus (b_eq qp) @ map uminus (b_ieq qp))"
    using i U by (simp add: initialized_def)
  moreover have "rows (stacked_constraints qp) =
      length (upper_bound qp) + rows (A_eq qp) + rows (A_ieq qp)"
    and "cols (stacked_constraints qp) = rows (A_qp qp)"
    by (simp_all add: stacked_constraints_def)
  ultimately show ?thesis
    using s coeff_stacked_constraints [OF w] by blast
qed

theorem initialize_box_affine_layout_witness:
  "dimensions_consistent example_qp \<and> fits_uint32 example_qp
   \<and> OsqpEigenOpt_new 1000 example_qp 0 False = Inr example_session
   \<and> linearConstraintsMatrix (data (solver_m example_session)) =
       Some \<lparr>rows = 4, cols = 2,
         nonzeros = [((0, 0), 1), ((1, 1), 1), ((2, 0), 1), ((2, 1), 1), ((3, 1), 1)]\<rparr>
   \<and> lowerBound (data (solver_m example_session)) = Some [- 1, - 2, - 3, - 1000]
   \<and> upperBound (data (solver_m example_session)) = Some [1, 2, - 3, - 4]"
proof -
  from initialize_box_affine_layout [OF example_qp_consistent example_qp_fits, of 1000 0 False]
  obtain s where s: "OsqpEigenOpt_new 1000 example_qp 0 False = Inr s"
    and M: "linearConstraintsMatrix (data (solver_m s)) = Some (stacked_constraints example_qp)"
    and L: "lowerBound (data (solver_m s)) =
         Some (lower_bound example_qp @ map uminus (b_eq example_qp) @
           replicate (length (b_ieq example_qp)) (- 1000))"
    and U: "upperBound (data (solver_m s)) =
         Some (upper_bound example_qp @ map uminus (b_eq example_qp) @
           map uminus (b_ieq example_qp))"
    by blast
  have eq: "s = example_session"
    using s by (simp add: example_session_built)
  have sc: "stacked_constraints example_qp =
      \<lparr>rows = 4, cols = 2,
        nonzeros = [((0, 0), 1), ((1, 1), 1), ((2, 0), 1), ((2, 1), 1), ((3, 1), 1)]\<rparr>"
    by (simp add: stacked_constraints_def identity_entries_def shift_entry_def example_qp_def)
  have l: "lower_bound example_qp @ map uminus (b_eq example_qp) @
      replicate (length (b_ieq example_qp)) (- 1000) = [- 1, - 2, - 3, - 1000]"
    by (simp add: example_qp_def)
  have u: "upper_bound example_qp @ map uminus (b_eq example_qp) @
      map uminus (b_ieq example_qp) = [1, 2, - 3, - 4]"
    by (simp add: example_qp_def)
  show ?thesis
    using example_qp_consistent example_qp_fits example_session_built
      M [unfolded eq sc] L [unfolded eq l] U [unfolded eq u]
    by (intro conjI)
qed

lemma to_uint32_small: "n < 2 ^ 32 \<Longrightarrow> to_uint32 n = n"
  by (simp add: to_uint32_def)

lemma segment_assign_tail:
  assumes "length w \<le> length v"
  shows "segment_assign v (int (length v) - int (length w)) w =
           Inr (take (length v - length w) v @ w)"
proof -
  have n: "nat (int (length v) - int (length w)) = length v - length w"
    by arith
  have "\<not> (int (length v) - int (length w) < 0 \<or>
      int (length v) - int (length w) + int (length w) > int (length v))"
    using assms by simp
  then show ?thesis
    unfolding segment_assign_def n using assms by simp
qed

lemma setGradientIeqConstraintAndInit_in_range:
  assumes i: "initialized s" and k: "length b \<le> length (upper_bound_m s)"
  shows "setGradientIeqConstraintAndInit s g b =
     Inr (s\<lparr>b_qp_m := g,
            upper_bound_m :=
              take (length (upper_bound_m s) - length b) (upper_bound_m s) @ map uminus b,
            solver_m := (solver_m s)
              \<lparr>data := (data (solver_m s))
                 \<lparr>gradient := Some g,
                  upperBound := Some
                    (take (length (upper_bound_m s) - length b) (upper_bound_m s) @
                     map uminus b)\<rparr>,
               calls := calls (solver_m s) @
                 [ClearSolver, InitSolver ((data (solver_m s))
                    \<lparr>gradient := Some g,
                     upperBound := Some
                       (take (length (upper_bound_m s) - length b) (upper_bound_m s) @
                        map uminus b)\<rparr>)]\<rparr>\<rparr>)"
proof -
  have len: "length (lower_bound_m s) = length (upper_bound_m s)"
    and small: "length (lower_bound_m s) < 2 ^ 32"
    and d: "lowerBound (data (solver_m s)) = Some (lower_bound_m s)"
      "linearConstraintsMatrix (data (solver_m s)) = Some (linearConstraintsMatrix_m s)"
    using i by (simp_all add: initialized_def)
  have tu: "to_uint32 (length (lower_bound_m s)) = length (upper_bound_m s)"
    using to_uint32_small [OF small] len by simp
  have seg: "segment_assign (upper_bound_m s)
      (int (to_uint32 (length (lower_bound_m s))) - int (length b)) (map uminus b) =
      Inr (take (length (upper_bound_m s) - length b) (upper_bound_m s) @ map uminus b)"
    unfolding tu using segment_assign_tail [of "map uminus b" "upper_bound_m s"] k by simp
  have d': "(data (solver_m s))\<lparr>lowerBound := Some (lower_bound_m s)\<rparr> = data (solver_m s)"
    "(data (solver_m s))\<lparr>linearConstraintsMatrix := Some (linearConstraintsMatrix_m s)\<rparr> =
      data (solver_m s)"
    using d by simp_all
  show ?thesis
    unfolding setGradientIeqConstraintAndInit_def Let_def seg
    using d by (simp add: initSolver_def clearSolver_def Data.equality)
qed

lemma setGradientIeqConstraintAndInit_out_of_range:
  assumes i: "initialized s" and k: "length (upper_bound_m s) < length b"
  shows "setGradientIeqConstraintAndInit s g b = Inl SegmentOutOfRange"
proof -
  have len: "length (lower_bound_m s) = length (upper_bound_m s)"
    and small: "length (lower_bound_m s) < 2 ^ 32"
    using i by (simp_all add: initialized_def)
  have tu: "to_uint32 (length (lower_bound_m s)) = length (upper_bound_m s)"
    using to_uint32_small [OF small] len by simp
  have "int (to_uint32 (length (lower_bound_m s))) - int (length b) < 0"
    unfolding tu using k by simp
  then show ?thesis
    by (simp add: setGradientIeqConstraintAndInit_def Let_def segment_assign_def)
qed

section \<open>The two update paths\<close>

text \<open>
  The gradient-only update path. On an initialized session, \<^verbatim>\<open>setGradientAndInit\<close> replaces
  the gradient and nothing else of the data: the Hessian, the constraint matrix and both
  stacked bound vectors are what they were, in the solver and in the members. The settings
  are untouched, and the solver is cleared and set up again with these data. The adapter
  keeps no copy of a solution and hands none to the solver: the point from which the next
  run starts is decided inside the solver library, across its \<^verbatim>\<open>clearSolver\<close> and
  \<^verbatim>\<open>initSolver\<close>, and is not described here.
\<close>

lemma setGradientAndInit_frame:
  assumes "initialized s"
  shows "b_qp_m (setGradientAndInit s g) = g
     \<and> gradient (data (solver_m (setGradientAndInit s g))) = Some g
     \<and> data (solver_m (setGradientAndInit s g)) = (data (solver_m s))\<lparr>gradient := Some g\<rparr>
     \<and> hessianMatrix (data (solver_m (setGradientAndInit s g))) =
         hessianMatrix (data (solver_m s))
     \<and> linearConstraintsMatrix (data (solver_m (setGradientAndInit s g))) =
         linearConstraintsMatrix (data (solver_m s))
     \<and> lowerBound (data (solver_m (setGradientAndInit s g))) = lowerBound (data (solver_m s))
     \<and> upperBound (data (solver_m (setGradientAndInit s g))) = upperBound (data (solver_m s))
     \<and> linearConstraintsMatrix_m (setGradientAndInit s g) = linearConstraintsMatrix_m s
     \<and> lower_bound_m (setGradientAndInit s g) = lower_bound_m s
     \<and> upper_bound_m (setGradientAndInit s g) = upper_bound_m s
     \<and> settings (solver_m (setGradientAndInit s g)) = settings (solver_m s)
     \<and> warmStart (settings (solver_m (setGradientAndInit s g))) = Some True
     \<and> calls (solver_m (setGradientAndInit s g)) =
         calls (solver_m s) @
           [ClearSolver, InitSolver ((data (solver_m s))\<lparr>gradient := Some g\<rparr>)]
     \<and> initialized (setGradientAndInit s g)"
proof -
  have d: "(data (solver_m s))\<lparr>linearConstraintsMatrix := Some (linearConstraintsMatrix_m s)\<rparr> =
      data (solver_m s)"
    using assms by (simp add: initialized_def)
  have eq: "setGradientAndInit s g =
      s\<lparr>b_qp_m := g,
        solver_m := (solver_m s)
          \<lparr>data := (data (solver_m s))\<lparr>gradient := Some g\<rparr>,
           calls := calls (solver_m s) @
             [ClearSolver, InitSolver ((data (solver_m s))\<lparr>gradient := Some g\<rparr>)]\<rparr>\<rparr>"
    using assms
    by (simp add: setGradientAndInit_def Let_def initSolver_def clearSolver_def
        initialized_def Data.equality)
  show ?thesis
    unfolding eq using assms by (simp add: initialized_def)
qed

text \<open>
  Claim C2. On an initialized session, \<^verbatim>\<open>setGradientIeqConstraintAndInit\<close> with a slice
  that is not longer than the stacked bound vector replaces the gradient and overwrites the
  trailing slice of the upper bound vector with the negated slice. Whenever the upper bound
  is stacked as box, equality and inequality sections and the slice has the length of the
  inequality section, exactly that section is overwritten. The lower bound vector, the
  Hessian and the constraint matrix are unchanged.
\<close>

theorem setGradientIeqConstraintAndInit_overwrites_upper_tail:
  assumes "initialized s" and "length b \<le> length (upper_bound_m s)"
  shows "\<exists>s'. setGradientIeqConstraintAndInit s g b = Inr s'
     \<and> b_qp_m s' = g
     \<and> gradient (data (solver_m s')) = Some g
     \<and> upper_bound_m s' =
         take (length (upper_bound_m s) - length b) (upper_bound_m s) @ map uminus b
     \<and> (\<forall>bx be bi. upper_bound_m s = bx @ be @ bi \<and> length bi = length b \<longrightarrow>
           upper_bound_m s' = bx @ be @ map uminus b)
     \<and> upperBound (data (solver_m s')) = Some (upper_bound_m s')
     \<and> lower_bound_m s' = lower_bound_m s
     \<and> lowerBound (data (solver_m s')) = lowerBound (data (solver_m s))
     \<and> hessianMatrix (data (solver_m s')) = hessianMatrix (data (solver_m s))
     \<and> linearConstraintsMatrix (data (solver_m s')) = linearConstraintsMatrix (data (solver_m s))
     \<and> linearConstraintsMatrix_m s' = linearConstraintsMatrix_m s
     \<and> initialized s'"
proof -
  let ?U = "take (length (upper_bound_m s) - length b) (upper_bound_m s) @ map uminus b"
  let ?d = "(data (solver_m s))\<lparr>gradient := Some g, upperBound := Some ?U\<rparr>"
  let ?s' = "s\<lparr>b_qp_m := g, upper_bound_m := ?U,
      solver_m := (solver_m s)\<lparr>data := ?d,
        calls := calls (solver_m s) @ [ClearSolver, InitSolver ?d]\<rparr>\<rparr>"
  have lenU: "length ?U = length (upper_bound_m s)"
    using assms(2) by simp
  show ?thesis
  proof (intro exI [of _ ?s'] conjI allI impI)
    show "setGradientIeqConstraintAndInit s g b = Inr ?s'"
      by (rule setGradientIeqConstraintAndInit_in_range [OF assms])
  next
    fix bx be bi
    assume h: "upper_bound_m s = bx @ be @ bi \<and> length bi = length b"
    then have "?U = bx @ be @ map uminus b" by simp
    then show "upper_bound_m ?s' = bx @ be @ map uminus b" by simp
  next
    show "initialized ?s'"
      using assms(1) lenU by (simp add: initialized_def)
  qed simp_all
qed

theorem setGradientIeqConstraintAndInit_overwrites_upper_tail_witness:
  "initialized example_session
   \<and> length [7 :: real] \<le> length (upper_bound_m example_session)
   \<and> upper_bound_m example_session = [1, 2] @ [- 3] @ [- 4]
   \<and> (\<exists>s'. setGradientIeqConstraintAndInit example_session [5, 6] [7] = Inr s'
        \<and> b_qp_m s' = [5, 6]
        \<and> upper_bound_m s' = [1, 2] @ [- 3] @ map uminus [7]
        \<and> lower_bound_m s' = lower_bound_m example_session
        \<and> linearConstraintsMatrix (data (solver_m s')) =
            linearConstraintsMatrix (data (solver_m example_session)))"
proof -
  have k: "length [7 :: real] \<le> length (upper_bound_m example_session)"
    by (simp add: example_session_def)
  have u: "upper_bound_m example_session = [1, 2] @ [- 3] @ [- 4]"
    by (simp add: example_session_def)
  from setGradientIeqConstraintAndInit_overwrites_upper_tail
    [OF example_session_initialized k, of "[5, 6]"]
  obtain s' where s': "setGradientIeqConstraintAndInit example_session [5, 6] [7] = Inr s'"
    and g: "b_qp_m s' = [5, 6]"
    and sec: "\<forall>bx be bi. upper_bound_m example_session = bx @ be @ bi \<and>
        length bi = length [7 :: real] \<longrightarrow> upper_bound_m s' = bx @ be @ map uminus [7]"
    and l: "lower_bound_m s' = lower_bound_m example_session"
    and m: "linearConstraintsMatrix (data (solver_m s')) =
        linearConstraintsMatrix (data (solver_m example_session))"
    by blast
  from sec u have "upper_bound_m s' = [1, 2] @ [- 3] @ map uminus [7]"
    by (metis length_Cons list.size(3))
  with s' g l m example_session_initialized k u show ?thesis by blast
qed

text \<open>
  Claim C10. \<^verbatim>\<open>setGradientIeqConstraintAndInit\<close> anchors the slice at the end of the stacked
  upper bound vector: with \<open>k\<close> the length of the slice, the last \<open>k\<close> entries become the
  negated slice and the entries before them stay, for every \<open>k\<close> up to the length of the
  vector; no comparison with the number of inequality rows is made. A slice that is longer
  than the inequality section so overwrites entries of the equality and box sections. A slice
  that is longer than the whole vector is outside the vector, where the segment is not
  defined.
\<close>

theorem setGradientIeqConstraintAndInit_anchored_at_end:
  assumes "initialized s"
  shows "if length b \<le> length (upper_bound_m s)
     then \<exists>s'. setGradientIeqConstraintAndInit s g b = Inr s'
        \<and> length (upper_bound_m s') = length (upper_bound_m s)
        \<and> (\<forall>idx < length (upper_bound_m s).
              upper_bound_m s' ! idx =
                (if idx < length (upper_bound_m s) - length b then upper_bound_m s ! idx
                 else - (b ! (idx - (length (upper_bound_m s) - length b)))))
        \<and> (\<forall>bx be bi idx. upper_bound_m s = bx @ be @ bi \<and> length bi < length b \<and>
              length (upper_bound_m s) - length b \<le> idx \<and> idx < length bx + length be \<longrightarrow>
              upper_bound_m s' ! idx = - (b ! (idx - (length (upper_bound_m s) - length b))))
     else setGradientIeqConstraintAndInit s g b = Inl SegmentOutOfRange"
proof (cases "length b \<le> length (upper_bound_m s)")
  case False
  then show ?thesis
    using setGradientIeqConstraintAndInit_out_of_range [OF assms, of b g] by simp
next
  case True
  let ?n = "length (upper_bound_m s) - length b"
  let ?U = "take ?n (upper_bound_m s) @ map uminus b"
  have lenU: "length ?U = length (upper_bound_m s)"
    using True by simp
  have nth: "?U ! idx = (if idx < ?n then upper_bound_m s ! idx else - (b ! (idx - ?n)))"
    if "idx < length (upper_bound_m s)" for idx
    using that True by (simp add: nth_append)
  have over: "?U ! idx = - (b ! (idx - ?n))"
    if "upper_bound_m s = bx @ be @ bi \<and> length bi < length b \<and> ?n \<le> idx \<and>
        idx < length bx + length be" for bx be bi idx
  proof -
    from that have "?n \<le> idx" by blast
    then have ge: "\<not> idx < ?n" by (rule leD)
    from that have "idx < length (upper_bound_m s)" by simp
    with nth [of idx] ge show ?thesis by (simp only: if_False)
  qed
  let ?d = "(data (solver_m s))\<lparr>gradient := Some g, upperBound := Some ?U\<rparr>"
  let ?s' = "s\<lparr>b_qp_m := g, upper_bound_m := ?U,
      solver_m := (solver_m s)\<lparr>data := ?d,
        calls := calls (solver_m s) @ [ClearSolver, InitSolver ?d]\<rparr>\<rparr>"
  have sel: "upper_bound_m ?s' = ?U" by simp
  have "\<exists>s'. setGradientIeqConstraintAndInit s g b = Inr s'
        \<and> length (upper_bound_m s') = length (upper_bound_m s)
        \<and> (\<forall>idx < length (upper_bound_m s).
              upper_bound_m s' ! idx =
                (if idx < ?n then upper_bound_m s ! idx else - (b ! (idx - ?n))))
        \<and> (\<forall>bx be bi idx. upper_bound_m s = bx @ be @ bi \<and> length bi < length b \<and>
              ?n \<le> idx \<and> idx < length bx + length be \<longrightarrow>
              upper_bound_m s' ! idx = - (b ! (idx - ?n)))"
  proof (intro exI [of _ ?s'] conjI allI impI)
    show "setGradientIeqConstraintAndInit s g b = Inr ?s'"
      by (rule setGradientIeqConstraintAndInit_in_range [OF assms True])
    show "length (upper_bound_m ?s') = length (upper_bound_m s)"
      unfolding sel by (rule lenU)
  next
    fix idx assume "idx < length (upper_bound_m s)"
    then show "upper_bound_m ?s' ! idx =
        (if idx < ?n then upper_bound_m s ! idx else - (b ! (idx - ?n)))"
      unfolding sel by (rule nth)
  next
    fix bx be bi idx
    assume "upper_bound_m s = bx @ be @ bi \<and> length bi < length b \<and>
        ?n \<le> idx \<and> idx < length bx + length be"
    then show "upper_bound_m ?s' ! idx = - (b ! (idx - ?n))"
      unfolding sel by (rule over)
  qed
  with True show ?thesis by (simp only: if_True)
qed

theorem setGradientIeqConstraintAndInit_anchored_at_end_witness:
  "initialized example_session
   \<and> setGradientIeqConstraintAndInit example_session [5, 6] [7, 8, 9, 10, 11] =
       Inl SegmentOutOfRange
   \<and> upper_bound_m example_session = [1, 2] @ [- 3] @ [- 4]
   \<and> (\<exists>s'. setGradientIeqConstraintAndInit example_session [5, 6] [7, 8] = Inr s'
        \<and> upper_bound_m s' ! 0 = 1 \<and> upper_bound_m s' ! 1 = 2
        \<and> upper_bound_m s' ! 2 = - 7 \<and> upper_bound_m s' ! 3 = - 8)"
proof -
  have len: "length (upper_bound_m example_session) = 4"
    and u: "upper_bound_m example_session = [1, 2] @ [- 3] @ [- 4]"
    by (simp_all add: example_session_def)
  have long: "setGradientIeqConstraintAndInit example_session [5, 6] [7, 8, 9, 10, 11] =
      Inl SegmentOutOfRange"
    using setGradientIeqConstraintAndInit_anchored_at_end
      [OF example_session_initialized, of "[7, 8, 9, 10, 11]" "[5, 6]"]
    by (simp add: len)
  from setGradientIeqConstraintAndInit_anchored_at_end
    [OF example_session_initialized, of "[7, 8]" "[5, 6]"]
  obtain s' where s': "setGradientIeqConstraintAndInit example_session [5, 6] [7, 8] = Inr s'"
    and nth: "\<forall>idx < 4. upper_bound_m s' ! idx =
        (if idx < 2 then upper_bound_m example_session ! idx else - ([7, 8] ! (idx - 2)))"
    by (auto simp: len)
  have "upper_bound_m s' ! 0 = 1" "upper_bound_m s' ! 1 = 2"
    "upper_bound_m s' ! 2 = - 7" "upper_bound_m s' ! 3 = - 8"
    using nth by (simp_all add: u)
  with s' long u example_session_initialized show ?thesis by blast
qed

section \<open>Solving\<close>

text \<open>
  Claim C5. \<^verbatim>\<open>solveProblem\<close> has no failing branch: whatever solution and status the solver
  leaves, the call returns the solution vector and the session holds the status.
  \<^verbatim>\<open>checkFeasibility\<close> is true for every status except the primal infeasible one, for which
  it is false.
\<close>

theorem solveProblem_returns_solution_and_status:
  "fst (solveProblem osqp s) = fst (osqp (solver_m s))
   \<and> solution (solver_m (snd (solveProblem osqp s))) = fst (osqp (solver_m s))
   \<and> status (solver_m (snd (solveProblem osqp s))) = snd (osqp (solver_m s))
   \<and> checkFeasibility (snd (solveProblem osqp s)) =
       (snd (osqp (solver_m s)) \<noteq> OSQP_PRIMAL_INFEASIBLE)
   \<and> checkFeasibility s = (status (solver_m s) \<noteq> OSQP_PRIMAL_INFEASIBLE)"
  by (simp add: solveProblem_def checkFeasibility_def Let_def)

section \<open>The inequality-only layout\<close>

lemma OsqpEigenOpt2_new_loads:
  "linearConstraintsMatrix (data (solver_m2 (OsqpEigenOpt2_new infty qp verb))) = Some (A_ieq qp)
   \<and> numberOfConstraints (data (solver_m2 (OsqpEigenOpt2_new infty qp verb))) =
       Some (rows (A_eq qp) + rows (A_ieq qp))
   \<and> lowerBound (data (solver_m2 (OsqpEigenOpt2_new infty qp verb))) =
       Some (map uminus (b_eq qp) @ replicate (length (b_ieq qp)) (- infty))
   \<and> upperBound (data (solver_m2 (OsqpEigenOpt2_new infty qp verb))) =
       Some (map uminus (b_eq qp) @ map uminus (b_ieq qp))"
  by (simp add: OsqpEigenOpt2_new_def initializeSolver2_def Let_def initSolver_def
      clearSolver_def map_replicate_const)

text \<open>
  Claim C6. The second adapter loads \<open>A_ieq\<close> alone as the constraint matrix, and stacks
  the bounds of the equality rows before the bounds of the inequality rows. The constraint
  count that it declares is the number of rows of \<open>A_eq\<close> plus the number of rows of
  \<open>A_ieq\<close>: it counts the equality rows, which the first adapter stacks into its matrix
  and this one leaves out. For the small problem, whose dimensions are consistent and which
  has one equality row, the loaded matrix has one row, the declared count is 2 and the bounds
  have 2 entries.
\<close>

theorem inequality_only_count_exceeds_matrix_rows:
  "dimensions_consistent example_qp
   \<and> linearConstraintsMatrix (data (solver_m2 (OsqpEigenOpt2_new 1000 example_qp False))) =
       Some \<lparr>rows = 1, cols = 2, nonzeros = [((0, 1), 1)]\<rparr>
   \<and> numberOfConstraints (data (solver_m2 (OsqpEigenOpt2_new 1000 example_qp False))) = Some 2
   \<and> lowerBound (data (solver_m2 (OsqpEigenOpt2_new 1000 example_qp False))) =
       Some [- 3, - 1000]
   \<and> upperBound (data (solver_m2 (OsqpEigenOpt2_new 1000 example_qp False))) =
       Some [- 3, - 4]"
  by (simp add: example_qp_consistent OsqpEigenOpt2_new_loads) (simp add: example_qp_def)

section \<open>The rollout against the simulation\<close>

lemma map_of_filter_graph:
  "map_of (filter (\<lambda>e. snd e \<noteq> 0) (map (\<lambda>p. (p, g p)) ps)) k =
     (if k \<in> set ps \<and> g k \<noteq> (0::real) then Some (g k) else None)"
  by (induction ps) auto

lemma coeff_from_coeffs:
  "coeff (from_coeffs r c f) i j = (if i < r \<and> j < c then f i j else 0)"
  by (simp add: coeff_def from_coeffs_def map_of_filter_graph)

lemma shape_from_coeffs [simp]:
  "rows (from_coeffs r c f) = r" "cols (from_coeffs r c f) = c"
  by (simp_all add: from_coeffs_def)

lemma sum_list_upt: "sum_list (map f [0..<n]) = (\<Sum>k<n. f k)"
  by (simp add: interv_sum_list_conv_sum_set_nat atLeast0LessThan)

lemma row_dot_sum: "row_dot M v i = (\<Sum>j<cols M. coeff M i j * v ! j)"
  by (simp add: row_dot_def sum_list_upt)

lemma shape_mat_mul [simp]: "rows (mat_mul P Q) = rows P" "cols (mat_mul P Q) = cols Q"
  by (simp_all add: mat_mul_def)

lemma coeff_mat_mul:
  "coeff (mat_mul P Q) i j =
     (if i < rows P \<and> j < cols Q then \<Sum>k<cols P. coeff P i k * coeff Q k j else 0)"
  by (simp add: mat_mul_def coeff_from_coeffs sum_list_upt)

lemma shape_matrixPow [simp]:
  "rows (matrixPow M p) = rows M" "cols (matrixPow M p) = cols M"
  by (induction p) (simp_all add: setIdentity_def)

lemma coeff_setIdentity:
  "coeff (setIdentity (SparseMat_new n n)) i j = (if i = j \<and> i < n then 1 else 0)"
  by (simp add: coeff_def map_of_identity_entries)

lemma mat_mul_apply:
  assumes "i < rows P"
  shows "(\<Sum>j<cols Q. coeff (mat_mul P Q) i j * x j) =
         (\<Sum>l<cols P. coeff P i l * (\<Sum>j<cols Q. coeff Q l j * x j))"
proof -
  have "(\<Sum>j<cols Q. coeff (mat_mul P Q) i j * x j) =
        (\<Sum>j<cols Q. \<Sum>l<cols P. coeff P i l * (coeff Q l j * x j))"
    using assms by (simp add: coeff_mat_mul sum_distrib_right mult.assoc)
  also have "\<dots> = (\<Sum>l<cols P. \<Sum>j<cols Q. coeff P i l * (coeff Q l j * x j))"
    by (rule sum.swap)
  also have "\<dots> = (\<Sum>l<cols P. coeff P i l * (\<Sum>j<cols Q. coeff Q l j * x j))"
    by (simp add: sum_distrib_left)
  finally show ?thesis .
qed

lemma identity_mul_coeff:
  assumes "rows Q = n" and "i < n" and "j < cols Q"
  shows "coeff (mat_mul (setIdentity (SparseMat_new n n)) Q) i j = coeff Q i j"
proof -
  have "(\<Sum>k<n. coeff (setIdentity (SparseMat_new n n)) i k * coeff Q k j) =
        (\<Sum>k<n. if k = i then coeff Q k j else 0)"
    using assms(2) by (intro sum.cong) (auto simp: coeff_setIdentity)
  also have "\<dots> = coeff Q i j"
    using assms(2) by (simp add: sum.delta)
  finally show ?thesis
    using assms by (simp add: coeff_mat_mul)
qed

lemma map2_add_upt:
  "map2 (+) (map f [0..<n]) (map g [0..<n]) = map (\<lambda>i. f i + g i) [0..<(n::nat)]"
  by (rule nth_equalityI) simp_all

lemma step_rows:
  assumes "cols (A sys) = length x" and "cols (B sys) = length u"
    and "rows (B sys) = rows (A sys)"
  shows "step sys x u =
           Inr (map (\<lambda>l. row_dot (A sys) x l + row_dot (B sys) u l) [0..<rows (A sys)])"
  using assms by (simp add: step_def mat_vec_def vec_add_def map2_add_upt)

lemma closed_form_first:
  assumes dA: "rows (A sys) = n_x sys" "cols (A sys) = n_x sys"
    and dB: "rows (B sys) = n_x sys" "cols (B sys) = n_u sys"
    and r: "r < n_x sys"
  shows "closed_form sys x (u # us) 0 r = row_dot (A sys) x r + row_dot (B sys) u r"
proof -
  have b: "coeff (mat_mul (matrixPow (A sys) 0) (B sys)) r q = coeff (B sys) r q"
    if "q < n_u sys" for q
    using identity_mul_coeff [of "B sys" "n_x sys" r q] that r dA dB by simp
  have a: "coeff (matrixPow (A sys) (0 + 1)) r c = coeff (A sys) r c"
    if "c < n_x sys" for c
    using identity_mul_coeff [of "A sys" "n_x sys" r c] that r dA by simp
  have "closed_form sys x (u # us) 0 r =
      (\<Sum>q<n_u sys. coeff (B sys) r q * u ! q) + (\<Sum>c<n_x sys. coeff (A sys) r c * x ! c)"
    unfolding closed_form_def using a b by simp
  then show ?thesis
    using dA dB by (simp add: row_dot_sum)
qed

lemma closed_form_next:
  assumes dA: "rows (A sys) = n_x sys" "cols (A sys) = n_x sys"
    and dB: "rows (B sys) = n_x sys" "cols (B sys) = n_u sys"
    and r: "r < n_x sys"
  shows "closed_form sys x (u # us) (Suc k) r =
         closed_form sys
           (map (\<lambda>l. row_dot (A sys) x l + row_dot (B sys) u l) [0..<n_x sys]) us k r"
proof -
  let ?P = "matrixPow (A sys) (Suc k)"
  let ?x' = "map (\<lambda>l. row_dot (A sys) x l + row_dot (B sys) u l) [0..<n_x sys]"
  let ?T = "\<lambda>p v. \<Sum>q<n_u sys. coeff (mat_mul (matrixPow (A sys) p) (B sys)) r q * v ! q"
  have rP: "r < rows ?P" using r dA by simp
  have tail: "(\<Sum>c<n_x sys. coeff ?P r c * ?x' ! c) =
      (\<Sum>c<n_x sys. coeff (matrixPow (A sys) (Suc (Suc k))) r c * x ! c) + ?T (Suc k) u"
  proof -
    have "(\<Sum>c<n_x sys. coeff ?P r c * ?x' ! c) =
        (\<Sum>c<n_x sys. coeff ?P r c * (row_dot (A sys) x c + row_dot (B sys) u c))"
      by (intro sum.cong) simp_all
    also have "\<dots> = (\<Sum>c<n_x sys. coeff ?P r c * row_dot (A sys) x c) +
        (\<Sum>c<n_x sys. coeff ?P r c * row_dot (B sys) u c)"
      by (simp add: distrib_left sum.distrib)
    also have "(\<Sum>c<n_x sys. coeff ?P r c * row_dot (A sys) x c) =
        (\<Sum>c<n_x sys. coeff (matrixPow (A sys) (Suc (Suc k))) r c * x ! c)"
      using mat_mul_apply [OF rP, of "A sys" "\<lambda>j. x ! j"] dA
      by (simp add: row_dot_sum)
    also have "(\<Sum>c<n_x sys. coeff ?P r c * row_dot (B sys) u c) = ?T (Suc k) u"
      using mat_mul_apply [OF rP, of "B sys" "\<lambda>j. u ! j"] dA dB
      by (simp add: row_dot_sum)
    finally show ?thesis .
  qed
  have "closed_form sys x (u # us) (Suc k) r =
      (\<Sum>j\<le>Suc k. ?T (Suc k - j) ((u # us) ! j)) +
      (\<Sum>c<n_x sys. coeff (matrixPow (A sys) (Suc (Suc k))) r c * x ! c)"
    by (simp add: closed_form_def)
  also have "(\<Sum>j\<le>Suc k. ?T (Suc k - j) ((u # us) ! j)) =
      ?T (Suc k) u + (\<Sum>j\<le>k. ?T (k - j) (us ! j))"
    by (subst sum.atMost_Suc_shift) simp
  finally have "closed_form sys x (u # us) (Suc k) r =
      (\<Sum>j\<le>k. ?T (k - j) (us ! j)) + (\<Sum>c<n_x sys. coeff ?P r c * ?x' ! c)"
    using tail by simp
  then show ?thesis
    by (simp add: closed_form_def)
qed

lemma simulate_closed_form:
  assumes dA: "rows (A sys) = n_x sys" "cols (A sys) = n_x sys"
    and dB: "rows (B sys) = n_x sys" "cols (B sys) = n_u sys"
  shows "list_all (\<lambda>u. length u = n_u sys) us \<Longrightarrow> length x = n_x sys \<Longrightarrow>
     simulate sys x us =
       Inr (concat (map (\<lambda>k. map (closed_form sys x us k) [0..<n_x sys]) [0..<length us]))"
proof (induction us arbitrary: x)
  case Nil
  show ?case by simp
next
  case (Cons u us)
  let ?x' = "map (\<lambda>l. row_dot (A sys) x l + row_dot (B sys) u l) [0..<n_x sys]"
  have st: "step sys x u = Inr ?x'"
    using step_rows [of sys x u] dA dB Cons.prems by simp
  have rest: "simulate sys ?x' us =
      Inr (concat (map (\<lambda>k. map (closed_form sys ?x' us k) [0..<n_x sys]) [0..<length us]))"
    using Cons.IH [of ?x'] Cons.prems by simp
  have first: "map (closed_form sys x (u # us) 0) [0..<n_x sys] = ?x'"
    using closed_form_first [OF dA dB] by simp
  have later: "map (closed_form sys x (u # us) (Suc k)) [0..<n_x sys] =
      map (closed_form sys ?x' us k) [0..<n_x sys]" for k
    using closed_form_next [OF dA dB] by simp
  have "[0..<length (u # us)] = 0 # map Suc [0..<length us]"
    by (simp add: upt_conv_Cons map_Suc_upt del: upt_Suc)
  then have "concat (map (\<lambda>k. map (closed_form sys x (u # us) k) [0..<n_x sys])
        [0..<length (u # us)]) =
      ?x' @ concat (map (\<lambda>k. map (closed_form sys ?x' us k) [0..<n_x sys]) [0..<length us])"
    by (simp add: first later comp_def)
  then show ?case
    using st rest by simp
qed

lemma concat_blocks:
  "concat (map (\<lambda>k. map (g k) [0..<n]) [0..<N]) =
     map (\<lambda>i. g (i div n) (i mod n)) [0..<N * n]"
proof (induction N)
  case 0
  show ?case by simp
next
  case (Suc N)
  have block: "map (\<lambda>i. g (i div n) (i mod n)) [N * n..<N * n + n] = map (g N) [0..<n]"
  proof (rule nth_equalityI)
    show "length (map (\<lambda>i. g (i div n) (i mod n)) [N * n..<N * n + n]) =
        length (map (g N) [0..<n])"
      by simp
  next
    fix i assume "i < length (map (\<lambda>i. g (i div n) (i mod n)) [N * n..<N * n + n])"
    then have i: "i < n" by simp
    then have "(N * n + i) div n = N" and "(N * n + i) mod n = i"
      by simp_all
    with i show "map (\<lambda>i. g (i div n) (i mod n)) [N * n..<N * n + n] ! i =
        map (g N) [0..<n] ! i"
      by simp
  qed
  have split: "[0..<N * n + n] = [0..<N * n] @ [N * n..<N * n + n]"
    by (rule upt_add_eq_append) simp
  have "Suc N * n = N * n + n" by simp
  then have "map (\<lambda>i. g (i div n) (i mod n)) [0..<Suc N * n] =
      map (\<lambda>i. g (i div n) (i mod n)) [0..<N * n] @ map (g N) [0..<n]"
    by (simp only: split map_append block)
  moreover have "concat (map (\<lambda>k. map (g k) [0..<n]) [0..<Suc N]) =
      concat (map (\<lambda>k. map (g k) [0..<n]) [0..<N]) @ map (g N) [0..<n]"
    by simp
  ultimately show ?case
    using Suc.IH by (simp only:)
qed

lemma sum_blocks:
  "(\<Sum>c<N * m. f c) = (\<Sum>j<N. \<Sum>q<m. f (j * m + q))" for f :: "nat \<Rightarrow> real"
proof (induction N)
  case 0
  show ?case by simp
next
  case (Suc N)
  have "{..<Suc N * m} = {..<N * m} \<union> {N * m..<N * m + m}"
    by (auto simp: add.commute)
  moreover have "{..<N * m} \<inter> {N * m..<N * m + m} = {}"
    by auto
  ultimately have "(\<Sum>c<Suc N * m. f c) = (\<Sum>c<N * m. f c) + (\<Sum>c = N * m..<N * m + m. f c)"
    by (simp add: sum.union_disjoint)
  moreover have "(\<Sum>c = N * m..<N * m + m. f c) = (\<Sum>q<m. f (N * m + q))"
    using sum.shift_bounds_nat_ivl [of f 0 "N * m" m]
    by (simp add: atLeast0LessThan add.commute)
  ultimately show ?case
    using Suc.IH by simp
qed

lemma block_index_bound:
  assumes "k < N" and "r < (n::nat)"
  shows "k * n + r < N * n"
proof -
  have "k * n + r < k * n + n" using assms(2) by simp
  also have "\<dots> = Suc k * n" by simp
  also have "\<dots> \<le> N * n" using assms(1) by (intro mult_le_mono1) simp
  finally show ?thesis .
qed

lemma length_control_sequence [simp]: "length (control_sequence m N U) = N"
  by (simp add: control_sequence_def)

lemma control_sequence_nth:
  assumes "j < N" and "q < m" and "length U = N * m"
  shows "(control_sequence m N U ! j) ! q = U ! (j * m + q)"
  using assms block_index_bound [OF assms(1,2)] by (simp add: control_sequence_def)

lemma control_sequence_lengths:
  assumes "length U = N * m"
  shows "list_all (\<lambda>u. length u = m) (control_sequence m N U)"
proof -
  have "length (take m (drop (k * m) U)) = m" if "k < N" for k
  proof -
    have "Suc k * m \<le> N * m" using that by (intro mult_le_mono1) simp
    then have "m \<le> N * m - k * m" by simp
    then show ?thesis using assms by simp
  qed
  then show ?thesis
    by (simp add: control_sequence_def list_all_iff)
qed

lemma A_mpc_row:
  assumes k: "k < N" and r: "r < n_x sys" and U: "length U = N * n_u sys"
  shows "row_dot (build_A_mpc sys N) U (k * n_x sys + r) =
     (\<Sum>j\<le>k. \<Sum>q<n_u sys.
        coeff (mat_mul (matrixPow (A sys) (k - j)) (B sys)) r q *
        (control_sequence (n_u sys) N U ! j) ! q)"
proof -
  let ?n = "n_x sys" and ?m = "n_u sys"
  let ?G = "\<lambda>j q. coeff (mat_mul (matrixPow (A sys) (k - j)) (B sys)) r q"
  have row: "k * ?n + r < N * ?n" by (rule block_index_bound [OF k r])
  have kr: "(k * ?n + r) div ?n = k" "(k * ?n + r) mod ?n = r"
    using r by simp_all
  have entry: "coeff (build_A_mpc sys N) (k * ?n + r) (j * ?m + q) * U ! (j * ?m + q) =
      (if j \<le> k then ?G j q * (control_sequence ?m N U ! j) ! q else 0)"
    if "j < N" and "q < ?m" for j q
  proof -
    have col: "j * ?m + q < N * ?m" by (rule block_index_bound [OF that])
    have jq: "(j * ?m + q) div ?m = j" "(j * ?m + q) mod ?m = q"
      using that(2) by simp_all
    show ?thesis
      unfolding build_A_mpc_def coeff_from_coeffs Let_def kr jq
      using row col control_sequence_nth [OF that U] by simp
  qed
  have "row_dot (build_A_mpc sys N) U (k * ?n + r) =
      (\<Sum>c<N * ?m. coeff (build_A_mpc sys N) (k * ?n + r) c * U ! c)"
    by (simp add: row_dot_sum build_A_mpc_def)
  also have "\<dots> = (\<Sum>j<N. \<Sum>q<?m.
      coeff (build_A_mpc sys N) (k * ?n + r) (j * ?m + q) * U ! (j * ?m + q))"
    by (rule sum_blocks)
  also have "\<dots> = (\<Sum>j<N. \<Sum>q<?m.
      (if j \<le> k then ?G j q * (control_sequence ?m N U ! j) ! q else 0))"
    by (intro sum.cong refl entry) simp_all
  also have "\<dots> = (\<Sum>j<N. if j \<in> {..k} then
      (\<Sum>q<?m. ?G j q * (control_sequence ?m N U ! j) ! q) else 0)"
    by (intro sum.cong refl) simp
  also have "\<dots> = (\<Sum>j\<in>{..<N} \<inter> {..k}.
      \<Sum>q<?m. ?G j q * (control_sequence ?m N U ! j) ! q)"
    by (rule sum.inter_restrict [symmetric]) simp
  also have "{..<N} \<inter> {..k} = {..k}"
    using k by auto
  finally show ?thesis .
qed

lemma B_mpc_row:
  assumes k: "k < N" and r: "r < n_x sys"
  shows "row_dot (build_B_mpc sys N) x (k * n_x sys + r) =
     (\<Sum>c<n_x sys. coeff (matrixPow (A sys) (k + 1)) r c * x ! c)"
proof -
  have row: "k * n_x sys + r < N * n_x sys" by (rule block_index_bound [OF k r])
  have kr: "(k * n_x sys + r) div n_x sys = k" "(k * n_x sys + r) mod n_x sys = r"
    using r by simp_all
  show ?thesis
    unfolding row_dot_sum build_B_mpc_def shape_from_coeffs coeff_from_coeffs kr
    using row by simp
qed

lemma calculateX_closed_form:
  assumes x: "length x0 = n_x sys" and U: "length U = N * n_u sys"
  shows "calculateX (MPC_new sys N x0) U =
     Inr (concat (map (\<lambda>k. map (closed_form sys x0 (control_sequence (n_u sys) N U) k)
       [0..<n_x sys]) [0..<N]))"
proof -
  let ?n = "n_x sys"
  let ?cs = "control_sequence (n_u sys) N U"
  let ?row = "\<lambda>i. row_dot (build_A_mpc sys N) U i + row_dot (build_B_mpc sys N) x0 i"
  have "calculateX (MPC_new sys N x0) U = Inr (map ?row [0..<N * ?n])"
    using x U
    by (simp add: calculateX_def MPC_new_def setupMpcDynamics_def mat_vec_def vec_add_def
        map2_add_upt build_A_mpc_def build_B_mpc_def)
  also have "map ?row [0..<N * ?n] =
      map (\<lambda>i. closed_form sys x0 ?cs (i div ?n) (i mod ?n)) [0..<N * ?n]"
  proof (rule map_cong [OF refl])
    fix i assume "i \<in> set [0..<N * ?n]"
    then have i: "i < N * ?n" by simp
    then have n: "0 < ?n" by (cases "?n = 0") simp_all
    have k: "i div ?n < N"
      using i n by (simp add: less_mult_imp_div_less)
    have r: "i mod ?n < ?n" using n by simp
    have eq: "i div ?n * ?n + i mod ?n = i" by simp
    show "?row i = closed_form sys x0 ?cs (i div ?n) (i mod ?n)"
      using A_mpc_row [OF k r U] B_mpc_row [OF k r, of x0]
      unfolding eq closed_form_def by simp
  qed
  also have "\<dots> = concat (map (\<lambda>k. map (closed_form sys x0 ?cs k) [0..<?n]) [0..<N])"
    by (rule concat_blocks [symmetric])
  finally show ?thesis .
qed

lemma C_mpc_row:
  assumes k: "k < N" and r: "r < n_y sys"
  shows "row_dot (build_C_mpc sys N) X (k * n_y sys + r) =
     (\<Sum>c<n_x sys. coeff (C sys) r c * X ! (k * n_x sys + c))"
proof -
  let ?n = "n_x sys" and ?p = "n_y sys"
  have row: "k * ?p + r < N * ?p" by (rule block_index_bound [OF k r])
  have kr: "(k * ?p + r) div ?p = k" "(k * ?p + r) mod ?p = r"
    using r by simp_all
  have entry: "coeff (build_C_mpc sys N) (k * ?p + r) (j * ?n + q) * X ! (j * ?n + q) =
      (if j = k then coeff (C sys) r q * X ! (k * ?n + q) else 0)"
    if "j < N" and "q < ?n" for j q
  proof -
    have col: "j * ?n + q < N * ?n" by (rule block_index_bound [OF that])
    have jq: "(j * ?n + q) div ?n = j" "(j * ?n + q) mod ?n = q"
      using that(2) by simp_all
    show ?thesis
      unfolding build_C_mpc_def coeff_from_coeffs kr jq
      using row col by auto
  qed
  have "row_dot (build_C_mpc sys N) X (k * ?p + r) =
      (\<Sum>c<N * ?n. coeff (build_C_mpc sys N) (k * ?p + r) c * X ! c)"
    by (simp add: row_dot_sum build_C_mpc_def)
  also have "\<dots> = (\<Sum>j<N. \<Sum>q<?n.
      coeff (build_C_mpc sys N) (k * ?p + r) (j * ?n + q) * X ! (j * ?n + q))"
    by (rule sum_blocks)
  also have "\<dots> = (\<Sum>j<N. \<Sum>q<?n.
      (if j = k then coeff (C sys) r q * X ! (k * ?n + q) else 0))"
    by (intro sum.cong refl entry) simp_all
  also have "\<dots> = (\<Sum>j<N. if j = k then
      (\<Sum>q<?n. coeff (C sys) r q * X ! (k * ?n + q)) else 0)"
    by (intro sum.cong refl) simp
  also have "\<dots> = (\<Sum>q<?n. coeff (C sys) r q * X ! (k * ?n + q))"
    using k by (simp add: sum.delta)
  finally show ?thesis .
qed

lemma LinearSystem_new_dims:
  assumes "LinearSystem_new a b c d = Inr sys"
  shows "rows (A sys) = n_x sys" "cols (A sys) = n_x sys"
    "rows (B sys) = n_x sys" "cols (B sys) = n_u sys"
    "rows (C sys) = n_y sys" "cols (C sys) = n_x sys"
    "rows (D sys) = n_y sys" "cols (D sys) = n_u sys"
  using assms
  by (auto simp: LinearSystem_new_def checkMatrixDimensions_def Let_def split: if_splits)

lemma example_system_built:
  "LinearSystem_new (A example_system) (B example_system) (C example_system)
     (D example_system) = Inr example_system"
  by (simp add: LinearSystem_new_def checkMatrixDimensions_def example_system_def)

text \<open>
  Claim C8. The construction of a linear system succeeds exactly when \<open>B.rows = A.rows = A.cols\<close>,
  \<open>C.cols = A.cols\<close>, \<open>D.rows = C.rows\<close> and \<open>D.cols = B.cols\<close>. It then yields the system
  with the four matrices as they were given; otherwise it fails with a DimensionMismatch
  error that carries the four shapes. A controller keeps the system that it was given.
\<close>

theorem LinearSystem_new_validates_dimensions:
  "(\<exists>sys. LinearSystem_new a b c d = Inr sys) =
     (rows b = rows a \<and> rows a = cols a \<and> cols c = cols a \<and> rows d = rows c \<and>
      cols d = cols b)
   \<and> (if rows b = rows a \<and> rows a = cols a \<and> cols c = cols a \<and> rows d = rows c \<and>
          cols d = cols b
       then LinearSystem_new a b c d =
              Inr \<lparr>A = a, B = b, C = c, D = d, n_x = rows a, n_u = cols b, n_y = rows c\<rparr>
       else LinearSystem_new a b c d =
              Inl (DimensionMismatch [shape a, shape b, shape c, shape d]))
   \<and> linear_system_m (MPC_new sys N x0) = sys"
  by (simp add: LinearSystem_new_def checkMatrixDimensions_def MPC_new_def
      setupMpcDynamics_def Let_def)

text \<open>
  Claim C7. For a validated system, an initial state with one entry for each state and a
  stacked control vector with one control for each step of the horizon, \<^verbatim>\<open>calculateX\<close>
  returns the states of the step-by-step simulation \<open>x' = A * x + B * u\<close> from the initial
  state on, stacked in order. \<^verbatim>\<open>calculateY\<close> is \<open>C_mpc\<close> times that vector, which is
  \<open>C\<close> times the state of each step.
\<close>

theorem calculateX_equals_simulation:
  assumes sys: "LinearSystem_new a b c d = Inr sys"
    and x: "length x0 = n_x sys" and U: "length U = N * n_u sys"
  shows "calculateX (MPC_new sys N x0) U = simulate sys x0 (control_sequence (n_u sys) N U)
     \<and> (\<exists>X Y. calculateX (MPC_new sys N x0) U = Inr X \<and> length X = N * n_x sys
          \<and> calculateY (MPC_new sys N x0) U = mat_vec (C_mpc_m (MPC_new sys N x0)) X
          \<and> calculateY (MPC_new sys N x0) U = Inr Y \<and> length Y = N * n_y sys
          \<and> (\<forall>k<N. \<forall>r<n_y sys.
                Y ! (k * n_y sys + r) =
                  (\<Sum>c<n_x sys. coeff (C sys) r c * X ! (k * n_x sys + c))))"
proof -
  let ?cs = "control_sequence (n_u sys) N U"
  let ?X = "concat (map (\<lambda>k. map (closed_form sys x0 ?cs k) [0..<n_x sys]) [0..<N])"
  let ?mpc = "MPC_new sys N x0"
  let ?Y = "map (row_dot (build_C_mpc sys N) ?X) [0..<N * n_y sys]"
  note d = LinearSystem_new_dims [OF sys]
  have cx: "calculateX ?mpc U = Inr ?X"
    by (rule calculateX_closed_form [OF x U])
  have sim: "simulate sys x0 ?cs = Inr ?X"
    using simulate_closed_form [OF d(1-4) control_sequence_lengths [OF U] x] by simp
  have lenX: "length ?X = N * n_x sys"
    by (simp add: concat_blocks)
  have C: "C_mpc_m ?mpc = build_C_mpc sys N"
    by (simp add: MPC_new_def setupMpcDynamics_def)
  have cy: "calculateY ?mpc U = mat_vec (C_mpc_m ?mpc) ?X"
    by (simp add: calculateY_def cx)
  have mv: "mat_vec (C_mpc_m ?mpc) ?X = Inr ?Y"
    unfolding C mat_vec_def using lenX by (simp add: build_C_mpc_def)
  have lenY: "length ?Y = N * n_y sys" by simp
  have blocks: "\<forall>k<N. \<forall>r<n_y sys.
      ?Y ! (k * n_y sys + r) = (\<Sum>c<n_x sys. coeff (C sys) r c * ?X ! (k * n_x sys + c))"
  proof (intro allI impI)
    fix k r assume k: "k < N" and r: "r < n_y sys"
    have "k * n_y sys + r < N * n_y sys" by (rule block_index_bound [OF k r])
    then have "?Y ! (k * n_y sys + r) = row_dot (build_C_mpc sys N) ?X (k * n_y sys + r)"
      by simp
    then show "?Y ! (k * n_y sys + r) =
        (\<Sum>c<n_x sys. coeff (C sys) r c * ?X ! (k * n_x sys + c))"
      using C_mpc_row [OF k r, of ?X] by simp
  qed
  have "\<exists>X Y. calculateX ?mpc U = Inr X \<and> length X = N * n_x sys
          \<and> calculateY ?mpc U = mat_vec (C_mpc_m ?mpc) X
          \<and> calculateY ?mpc U = Inr Y \<and> length Y = N * n_y sys
          \<and> (\<forall>k<N. \<forall>r<n_y sys.
                Y ! (k * n_y sys + r) =
                  (\<Sum>c<n_x sys. coeff (C sys) r c * X ! (k * n_x sys + c)))"
    using cx lenX cy mv lenY blocks
    by (intro exI [of _ ?X] exI [of _ ?Y] conjI) (simp_all only:)
  moreover have "calculateX ?mpc U = simulate sys x0 ?cs"
    using cx sim by simp
  ultimately show ?thesis by (rule conjI [rotated])
qed

theorem calculateX_equals_simulation_witness:
  "LinearSystem_new (A example_system) (B example_system) (C example_system)
     (D example_system) = Inr example_system
   \<and> length [0, 0 :: real] = n_x example_system
   \<and> length [1, 1 :: real] = 2 * n_u example_system
   \<and> simulate example_system [0, 0] (control_sequence (n_u example_system) 2 [1, 1]) =
       Inr [0, 1, 1, 2]
   \<and> calculateX (MPC_new example_system 2 [0, 0]) [1, 1] = Inr [0, 1, 1, 2]
   \<and> (\<exists>Y. calculateY (MPC_new example_system 2 [0, 0]) [1, 1] = Inr Y \<and> length Y = 2
        \<and> Y ! 0 = 0 \<and> Y ! 1 = 1)"
proof -
  have x: "length [0, 0 :: real] = n_x example_system"
    and U: "length [1, 1 :: real] = 2 * n_u example_system"
    by (simp_all add: example_system_def)
  have sim: "simulate example_system [0, 0] (control_sequence (n_u example_system) 2 [1, 1]) =
      Inr [0, 1, 1, 2]"
    by (simp add: example_system_def control_sequence_def step_def mat_vec_def vec_add_def
        row_dot_def coeff_def eval_nat_numeral)
  from calculateX_equals_simulation [OF example_system_built x U]
  obtain X Y where cx: "calculateX (MPC_new example_system 2 [0, 0]) [1, 1] =
        simulate example_system [0, 0] (control_sequence (n_u example_system) 2 [1, 1])"
    and X: "calculateX (MPC_new example_system 2 [0, 0]) [1, 1] = Inr X"
    and Y: "calculateY (MPC_new example_system 2 [0, 0]) [1, 1] = Inr Y"
      "length Y = 2 * n_y example_system"
    and blocks: "\<forall>k<2. \<forall>r<n_y example_system.
        Y ! (k * n_y example_system + r) =
          (\<Sum>c<n_x example_system. coeff (C example_system) r c *
             X ! (k * n_x example_system + c))"
    by blast
  have Xv: "X = [0, 1, 1, 2]" using cx X sim by simp
  have "Y ! 0 = 0" "Y ! 1 = 1" "length Y = 2"
    using blocks Y(2) unfolding Xv
    by (simp_all add: example_system_def coeff_def lessThan_Suc numeral_2_eq_2)
  with example_system_built x U sim cx Y(1) show ?thesis
    by auto
qed

end
